theory Spec2Isabelle
  imports Complex_Main "HOL-Library.Sublist" "HOL-Library.Log_Nat"
begin

section \<open>Data model (agent/state.py)\<close>

text \<open>
  The TypedDicts of \<^verbatim>\<open>agent/state.py\<close> become records. Python's unbounded \<^verbatim>\<open>int\<close> is
  \<^typ>\<open>int\<close>. A Python \<^verbatim>\<open>float\<close> is the rational number it denotes (\<^typ>\<open>rat\<close>); every
  arithmetic operation on floats rounds its exact result to the nearest double, as
  defined below. The field names of \<^verbatim>\<open>FixRecord\<close> and \<^verbatim>\<open>CICDEvent\<close> that repeat a name of
  \<^verbatim>\<open>FailureEvent\<close> or \<^verbatim>\<open>AgentState\<close> carry a prefix, since record selectors share one
  name space; the field \<^verbatim>\<open>file\<close> of \<^verbatim>\<open>FailureEvent\<close> is \<open>file_path\<close> and the field \<^verbatim>\<open>fixes\<close>
  of \<^verbatim>\<open>AgentState\<close> is \<open>fix_records\<close>, both names being keywords.
\<close>

record FailureEvent =
  bug_type :: string
  file_path :: string
  line :: int
  message :: string

record FixRecord =
  fix_bug_type :: string
  fix_file :: string
  fix_line :: int
  fix_description :: string
  patch :: string
  fix_status :: string

text \<open>
  A timeline entry keeps its event name and its status. The wall-clock timestamp and
  the free-text detail of the source are left out: no step reads them back.
\<close>

record CICDEvent =
  event :: string
  ev_status :: string

record ScoreBreakdown =
  tests_passed_pct :: rat
  fixes_applied :: nat
  fix_quality_score :: rat
  ci_success_bonus :: rat
  base_score :: rat
  speed_bonus :: rat
  efficiency_penalty :: int
  total_score :: rat

record AgentState =
  repo_url :: string
  team_name :: string
  leader_name :: string
  openai_key :: string
  retry_limit :: int
  github_token :: string
  branch_name :: string
  clone_path :: string
  language :: string
  failures :: "FailureEvent list"
  total_tests :: int
  tests_passed :: int
  tests_failed :: int
  fix_records :: "FixRecord list"
  commit_sha :: string
  pr_url :: string
  cicd_timeline :: "CICDEvent list"
  cicd_status :: string
  score :: ScoreBreakdown
  retry_count :: int
  status :: string
  error_message :: "string option"
  run_id :: string
  started_at :: string
  finished_at :: string
  duration_seconds :: rat

definition timeline_event :: "string \<Rightarrow> string \<Rightarrow> CICDEvent" where
  "timeline_event e st = \<lparr>event = e, ev_status = st\<rparr>"

section \<open>Floating-point arithmetic of the interpreter\<close>

text \<open>
  Rounding to the nearest integer, ties to the even neighbour.
\<close>

definition round_half_even :: "rat \<Rightarrow> int" where
  "round_half_even y =
     (let f = \<lfloor>y\<rfloor>; d = y - of_int f
      in if d < 1 / 2 then f else if 1 / 2 < d then f + 1 else if even f then f else f + 1)"

text \<open>
  The binary exponent \<open>\<lfloor>log\<^sub>2 \<bar>x\<bar>\<rfloor>\<close> of a rational other than 0, from the bit length of
  the integer part of \<open>\<bar>x\<bar>\<close>, or of the inverse when \<open>\<bar>x\<bar> < 1\<close>.
\<close>

definition binary_exponent :: "rat \<Rightarrow> int" where
  "binary_exponent x =
     (if 1 \<le> \<bar>x\<bar> then bitlen \<lfloor>\<bar>x\<bar>\<rfloor> - 1 else - bitlen (\<lceil>1 / \<bar>x\<bar>\<rceil> - 1))"

definition pow2 :: "int \<Rightarrow> rat" where
  "pow2 k = (if 0 \<le> k then 2 ^ nat k else 1 / 2 ^ nat (- k))"

text \<open>
  The double nearest to a rational: 53 significant bits, ties to the even significand
  (the rounding of every float operation of the interpreter, of the true division of
  two integers, and of the conversion of an integer to a float). The exponent range of
  doubles is not modelled: the values are exact as long as no quotient, product or
  integer operand leaves the range of normal doubles, which needs a counter of more
  than 300 decimal digits; beyond it the interpreter raises \<^verbatim>\<open>OverflowError\<close> or
  computes with \<^verbatim>\<open>inf\<close> and subnormal numbers.
\<close>

definition to_double :: "rat \<Rightarrow> rat" where
  "to_double x =
     (if x = 0 then 0
      else let ulp = pow2 (binary_exponent x - 52)
           in of_int (round_half_even (x / ulp)) * ulp)"

text \<open>
  \<^verbatim>\<open>round(x, n)\<close> on a float: the exact value of \<open>x\<close> is rounded to \<open>n\<close> decimals, ties to
  the even digit, and the decimal is converted to the nearest double.
\<close>

definition py_round :: "rat \<Rightarrow> nat \<Rightarrow> rat" where
  "py_round x n = to_double (of_int (round_half_even (x * 10 ^ n)) / 10 ^ n)"

section \<open>Score agent (agent/agents/score_agent.py)\<close>

text \<open>\<^verbatim>\<open>sum(1 for f in fixes if f.get("status") == "applied")\<close>\<close>

definition applied_fixes :: "FixRecord list \<Rightarrow> nat" where
  "applied_fixes fs = length (filter (\<lambda>f. fix_status f = ''applied'') fs)"

text \<open>
  The sections of \<^verbatim>\<open>score_agent\<close>, one definition per local variable. A quotient of two
  integers is the correctly rounded true division; each product, sum and difference of
  floats is rounded; the integer penalty is converted to a float before it is
  subtracted.
\<close>

definition tests_passed_pct_of :: "AgentState \<Rightarrow> rat" where
  "tests_passed_pct_of state =
     (if 0 < total_tests state
      then to_double (to_double (of_int (tests_passed state) / of_int (total_tests state)) * 100)
      else if length (failures state) = 0 then 100 else 0)"

definition tests_score_of :: "AgentState \<Rightarrow> rat" where
  "tests_score_of state =
     (if 0 < total_tests state
      then to_double (to_double (of_int (tests_passed state) / of_int (total_tests state)) * 40)
      else if length (failures state) = 0 then 40 else 0)"

definition fix_quality_score_of :: "AgentState \<Rightarrow> rat" where
  "fix_quality_score_of state =
     (let total_failures = length (failures state) in
      if 0 < total_failures
      then to_double
             (to_double (of_nat (applied_fixes (fix_records state)) / of_nat total_failures) * 40)
      else 40)"

definition ci_bonus_of :: "AgentState \<Rightarrow> rat" where
  "ci_bonus_of state =
     (if cicd_status state = ''success'' then 20
      else if length (failures state) = 0 \<and> total_tests state = 0 then 20
      else 0)"

definition base_score_of :: "AgentState \<Rightarrow> rat" where
  "base_score_of state =
     to_double (to_double (tests_score_of state + fix_quality_score_of state) + ci_bonus_of state)"

definition speed_bonus_of :: "AgentState \<Rightarrow> rat" where
  "speed_bonus_of state = (if duration_seconds state < 300 then 10 else 0)"

definition efficiency_penalty_of :: "AgentState \<Rightarrow> int" where
  "efficiency_penalty_of state =
     (let total_commits = retry_count state + 1
      in max 0 ((total_commits - 20) * 2))"

definition total_score_of :: "AgentState \<Rightarrow> rat" where
  "total_score_of state =
     py_round (max 0 (to_double (to_double (base_score_of state + speed_bonus_of state)
                                   - to_double (of_int (efficiency_penalty_of state))))) 2"

definition score_agent :: "AgentState \<Rightarrow> AgentState" where
  "score_agent state =
     (let breakdown =
            \<lparr>tests_passed_pct = py_round (tests_passed_pct_of state) 1,
             fixes_applied = applied_fixes (fix_records state),
             fix_quality_score = py_round (fix_quality_score_of state) 2,
             ci_success_bonus = ci_bonus_of state,
             base_score = py_round (base_score_of state) 2,
             speed_bonus = speed_bonus_of state,
             efficiency_penalty = efficiency_penalty_of state,
             total_score = total_score_of state\<rparr>;
          timeline = cicd_timeline state @ [timeline_event ''score_calculated'' ''success'']
      in state\<lparr>score := breakdown,
               cicd_timeline := timeline,
               status := (if 50 \<le> total_score_of state then ''success'' else ''partial'')\<rparr>)"

section \<open>Conditional edge and retry node (agent/orchestrator.py)\<close>

definition should_retry :: "AgentState \<Rightarrow> string" where
  "should_retry state =
     (if status state = ''failed'' then ''score''
      else if cicd_status state = ''success'' then ''score''
      else if retry_limit state \<le> retry_count state then ''score''
      else ''analyze'')"

definition increment_retry :: "AgentState \<Rightarrow> AgentState" where
  "increment_retry state = state\<lparr>retry_count := retry_count state + 1, fix_records := []\<rparr>"

section \<open>Clone agent (agent/agents/clone_agent.py)\<close>

text \<open>
  What the outside world answers is an argument of each step. For the clone step it is
  either a successful \<^verbatim>\<open>git clone\<close> (the temporary base directory, the stamp of the
  directory name, and the numbers of Python, TypeScript and JavaScript files found
  there), or the exception raised inside the \<^verbatim>\<open>try\<close> block.
\<close>

datatype clone_result =
  Cloned string string nat nat nat
| Clone_raises string

definition detect_language :: "nat \<Rightarrow> nat \<Rightarrow> nat \<Rightarrow> string" where
  "detect_language python typescript javascript =
     (if 0 < typescript \<and> javascript \<le> typescript then ''typescript''
      else if javascript \<le> python \<and> typescript \<le> python
      then (if 0 < python then ''python'' else ''javascript'')
      else ''javascript'')"

definition clone_agent :: "clone_result \<Rightarrow> AgentState \<Rightarrow> AgentState" where
  "clone_agent r state =
     (let timeline = cicd_timeline state @ [timeline_event ''clone_started'' ''running'']
      in case r of
           Cloned tmp_base stamp py ts js \<Rightarrow>
             state\<lparr>clone_path := tmp_base @ ''/rift_agent_'' @ stamp,
                   language := detect_language py ts js,
                   cicd_timeline := timeline @ [timeline_event ''clone_success'' ''success''],
                   error_message := None\<rparr>
         | Clone_raises exc \<Rightarrow>
             state\<lparr>clone_path := [],
                   language := ''unknown'',
                   cicd_timeline := timeline @ [timeline_event ''clone_failed'' ''failure''],
                   status := ''failed'',
                   error_message := Some exc\<rparr>)"

section \<open>Analyze agent (agent/agents/analyze_agent.py)\<close>

text \<open>
  The tool runs and the regular-expression parsers are the outside world of the
  analyze step: it receives the failure list in the order the parsers appended it
  (test-runner findings, then linter findings) with the two counters of the summary
  line, or the exception caught by the outer \<^verbatim>\<open>try\<close>. The deduplication loop is the
  code's own: \<open>seen\<close> is the set of keys, \<open>deduped\<close> the list built so far.
\<close>

datatype analyze_result =
  Parsed "FailureEvent list" int int
| Analyze_raises string

type_synonym failure_key = "string \<times> string \<times> int"

definition key_of :: "FailureEvent \<Rightarrow> failure_key" where
  "key_of f = (bug_type f, file_path f, line f)"

fun dedup_loop ::
  "FailureEvent list \<Rightarrow> failure_key set \<Rightarrow> FailureEvent list \<Rightarrow> FailureEvent list" where
  "dedup_loop [] seen deduped = deduped"
| "dedup_loop (f # fs) seen deduped =
     (if key_of f \<notin> seen
      then dedup_loop fs (insert (key_of f) seen) (deduped @ [f])
      else dedup_loop fs seen deduped)"

definition deduplicate :: "FailureEvent list \<Rightarrow> FailureEvent list" where
  "deduplicate fs = dedup_loop fs {} []"

definition analyze_agent :: "analyze_result \<Rightarrow> AgentState \<Rightarrow> AgentState" where
  "analyze_agent r state =
     (if clone_path state = [] \<or> status state = ''failed'' then state
      else
        let timeline = cicd_timeline state @ [timeline_event ''analysis_started'' ''running'']
        in case r of
             Parsed found n_total n_passed \<Rightarrow>
               (let deduped = deduplicate found
                in state\<lparr>failures := deduped,
                         total_tests := n_total,
                         tests_passed := n_passed,
                         tests_failed := int (length deduped),
                         cicd_timeline := timeline @
                           [timeline_event ''analysis_complete''
                              (if length deduped = 0 then ''success'' else ''failure'')]\<rparr>)
           | Analyze_raises error_detail \<Rightarrow>
               state\<lparr>failures := [],
                     total_tests := 0,
                     tests_passed := 0,
                     tests_failed := 0,
                     cicd_timeline := timeline @ [timeline_event ''analysis_error'' ''failure''],
                     error_message := Some error_detail\<rparr>)"

section \<open>Git agent (agent/agents/git_agent.py)\<close>

definition py_upper :: "string \<Rightarrow> string" where
  "py_upper s =
     map (\<lambda>c. let n = (of_char c :: nat)
              in if 97 \<le> n \<and> n \<le> 122 then char_of (n - 32) else c) s"

definition build_branch_name :: "string \<Rightarrow> string \<Rightarrow> string" where
  "build_branch_name team leader =
     (let underscored = map (\<lambda>c. if c = CHR '' '' then CHR ''_'' else c)
      in underscored (py_upper team) @ ''_'' @ underscored (py_upper leader) @ ''_AI_Fix'')"

text \<open>
  The git commands end in one of three ways: nothing to commit, a commit pushed (the
  SHA printed by \<^verbatim>\<open>git rev-parse HEAD\<close>), or an exception.
\<close>

datatype git_result =
  Nothing_to_commit
| Pushed string
| Git_raises string

definition git_agent :: "git_result \<Rightarrow> AgentState \<Rightarrow> AgentState" where
  "git_agent r state =
     (if clone_path state = [] \<or> status state = ''failed'' then state
      else
        let branch = build_branch_name (team_name state) (leader_name state);
            timeline = cicd_timeline state @ [timeline_event ''git_started'' ''running'']
        in case r of
             Nothing_to_commit \<Rightarrow>
               state\<lparr>branch_name := branch,
                     commit_sha := [],
                     cicd_timeline := timeline @
                       [timeline_event ''git_nothing_to_commit'' ''success'']\<rparr>
           | Pushed sha \<Rightarrow>
               state\<lparr>branch_name := branch,
                     commit_sha := sha,
                     cicd_timeline := timeline @ [timeline_event ''git_pushed'' ''success'']\<rparr>
           | Git_raises exc \<Rightarrow>
               state\<lparr>branch_name := branch,
                     commit_sha := [],
                     cicd_timeline := timeline @ [timeline_event ''git_failed'' ''failure''],
                     error_message := Some exc\<rparr>)"

section \<open>CI/CD monitor agent (agent/agents/cicd_agent.py)\<close>

text \<open>
  One answer of \<^verbatim>\<open>get_workflow_status\<close> is a status with a conclusion, or an exception.
  The remote side of the verify step is: whether the owner and repository can be read
  off the URL, what \<^verbatim>\<open>get_latest_workflow_run\<close> returns, and the answer to the
  \<open>i\<close>-th poll.
\<close>

datatype poll_reply =
  Workflow_status string string
| Poll_raises string

datatype workflow_lookup =
  No_workflow_run
| Workflow_run
| Lookup_raises string

record cicd_remote =
  url_parses :: bool
  latest_run :: workflow_lookup
  poll :: "nat \<Rightarrow> poll_reply"

text \<open>
  The poll loop \<^verbatim>\<open>for _ in range(max_polls)\<close>, with \<open>i\<close> the number of polls done and
  \<open>k\<close> the number left. The result is the CI status, or the exception, with the
  timeline as extended so far.
\<close>

fun poll_loop ::
  "(nat \<Rightarrow> poll_reply) \<Rightarrow> nat \<Rightarrow> nat \<Rightarrow> string \<Rightarrow> CICDEvent list
     \<Rightarrow> (string + string) \<times> CICDEvent list" where
  "poll_loop replies i 0 last_status timeline =
     (Inr ''failure'', timeline @ [timeline_event ''cicd_timeout'' ''failure''])"
| "poll_loop replies i (Suc k) last_status timeline =
     (case replies i of
        Poll_raises exc \<Rightarrow> (Inl exc, timeline)
      | Workflow_status st conclusion \<Rightarrow>
          (let timeline' =
                 (if st \<noteq> last_status
                  then timeline @
                    [timeline_event (''cicd_'' @ st)
                       (if st = ''queued'' \<or> st = ''in_progress'' then ''running''
                        else if conclusion = ''success'' then ''success'' else ''failure'')]
                  else timeline);
               last_status' = (if st \<noteq> last_status then st else last_status)
           in if st = ''completed''
              then (Inr (if conclusion = ''success'' then ''success'' else ''failure''), timeline')
              else poll_loop replies (Suc i) k last_status' timeline'))"

definition cicd_agent :: "cicd_remote \<Rightarrow> AgentState \<Rightarrow> AgentState" where
  "cicd_agent remote state =
     (let timeline = cicd_timeline state in
      if github_token state = [] \<or> commit_sha state = []
      then
        (let applied = applied_fixes (fix_records state);
             ci_status = (if 0 < applied \<and> 0 < length (failures state)
                          then ''success'' else ''failure'')
         in state\<lparr>cicd_status := ci_status,
                  cicd_timeline := timeline @ [timeline_event ''cicd_simulated'' ci_status]\<rparr>)
      else if \<not> url_parses remote
      then state\<lparr>cicd_status := ''pending'',
                 cicd_timeline := timeline @ [timeline_event ''cicd_skipped'' ''pending'']\<rparr>
      else
        (let timeline1 = timeline @ [timeline_event ''cicd_polling_started'' ''running'']
         in case latest_run remote of
              Lookup_raises exc \<Rightarrow>
                state\<lparr>cicd_status := ''failure'',
                      cicd_timeline := timeline1 @ [timeline_event ''cicd_error'' ''failure'']\<rparr>
            | No_workflow_run \<Rightarrow>
                state\<lparr>cicd_status := ''pending'',
                      cicd_timeline := timeline1 @
                        [timeline_event ''cicd_no_workflow'' ''pending'']\<rparr>
            | Workflow_run \<Rightarrow>
                (case poll_loop (poll remote) 0 60 [] timeline1 of
                   (Inr final_status, timeline2) \<Rightarrow>
                     state\<lparr>cicd_status := final_status, cicd_timeline := timeline2\<rparr>
                 | (Inl exc, timeline2) \<Rightarrow>
                     state\<lparr>cicd_status := ''failure'',
                           cicd_timeline := timeline2 @
                             [timeline_event ''cicd_error'' ''failure'']\<rparr>)))"

section \<open>Fix agent (agent/agents/fix_agent.py)\<close>

subsection \<open>Python string and list primitives\<close>

abbreviation TAB :: char where "TAB \<equiv> CHR 0x09"
abbreviation LF :: char where "LF \<equiv> CHR 0x0A"
abbreviation CR :: char where "CR \<equiv> CHR 0x0D"
abbreviation SPACE :: char where "SPACE \<equiv> CHR 0x20"

text \<open>
  Characters are bytes here. \<^verbatim>\<open>str.strip\<close> and \<^verbatim>\<open>str.splitlines\<close> are modelled on the
  ASCII range: white space is 0x09 to 0x0D and 0x1C to 0x20, a line boundary is one of
  LF, VT, FF, CR, FS, GS, RS, or the pair CR LF.
\<close>

definition py_isspace :: "char \<Rightarrow> bool" where
  "py_isspace c = (let n = (of_char c :: nat) in (9 \<le> n \<and> n \<le> 13) \<or> (28 \<le> n \<and> n \<le> 32))"

definition py_rstrip :: "string \<Rightarrow> string" where
  "py_rstrip s = rev (dropWhile py_isspace (rev s))"

definition py_strip :: "string \<Rightarrow> string" where
  "py_strip s = py_rstrip (dropWhile py_isspace s)"

definition is_linebreak :: "char \<Rightarrow> bool" where
  "is_linebreak c = (let n = (of_char c :: nat) in (10 \<le> n \<and> n \<le> 13) \<or> (28 \<le> n \<and> n \<le> 30))"

text \<open>\<^verbatim>\<open>s.splitlines(keepends=True)\<close>; \<open>cur\<close> is the line being read.\<close>

fun splitlines_keepends :: "string \<Rightarrow> string \<Rightarrow> string list" where
  "splitlines_keepends [] cur = (if cur = [] then [] else [cur])"
| "splitlines_keepends [c] cur = [cur @ [c]]"
| "splitlines_keepends (c # d # cs) cur =
     (if c = CR \<and> d = LF then (cur @ [c, d]) # splitlines_keepends cs []
      else if is_linebreak c then (cur @ [c]) # splitlines_keepends (d # cs) []
      else splitlines_keepends (d # cs) (cur @ [c]))"

text \<open>
  Reading in text mode with universal newlines: CR LF and a lone CR become LF, then
  \<^verbatim>\<open>readlines\<close> cuts after every LF.
\<close>

fun universal_newlines :: "string \<Rightarrow> string" where
  "universal_newlines [] = []"
| "universal_newlines [c] = [if c = CR then LF else c]"
| "universal_newlines (c # d # cs) =
     (if c = CR
      then (if d = LF then LF # universal_newlines cs else LF # universal_newlines (d # cs))
      else c # universal_newlines (d # cs))"

fun readlines :: "string \<Rightarrow> string \<Rightarrow> string list" where
  "readlines [] cur = (if cur = [] then [] else [cur])"
| "readlines (c # cs) cur =
     (if c = LF then (cur @ [c]) # readlines cs [] else readlines cs (cur @ [c]))"

text \<open>\<^verbatim>\<open>re.search\<close> for a literal marker: the text after, and before, its first occurrence.\<close>

fun after_first :: "string \<Rightarrow> string \<Rightarrow> string option" where
  "after_first m [] = (if m = [] then Some [] else None)"
| "after_first m (c # cs) =
     (if prefix m (c # cs) then Some (drop (length m) (c # cs)) else after_first m cs)"

fun before_first :: "string \<Rightarrow> string \<Rightarrow> string" where
  "before_first m [] = []"
| "before_first m (c # cs) = (if prefix m (c # cs) then [] else c # before_first m cs)"

text \<open>
  Slices \<^verbatim>\<open>xs[a:b]\<close> and slice assignment \<^verbatim>\<open>xs[a:b] = r\<close>: a negative bound counts from
  the end, and both bounds are clipped to the list.
\<close>

definition slice_index :: "int \<Rightarrow> nat \<Rightarrow> nat" where
  "slice_index i n = (if i < 0 then nat (max 0 (i + int n)) else min (nat i) n)"

definition py_slice :: "'a list \<Rightarrow> int \<Rightarrow> int \<Rightarrow> 'a list" where
  "py_slice xs a b =
     (let lo = slice_index a (length xs); hi = slice_index b (length xs)
      in take (hi - lo) (drop lo xs))"

definition py_slice_assign :: "'a list \<Rightarrow> int \<Rightarrow> int \<Rightarrow> 'a list \<Rightarrow> 'a list" where
  "py_slice_assign xs a b r =
     (let lo = slice_index a (length xs); hi = slice_index b (length xs)
      in take lo xs @ r @ drop (max lo hi) xs)"

subsection \<open>The working tree and the delegate fixer\<close>

text \<open>
  A path of the working tree is absent, a readable text file, something that exists and
  cannot be opened for reading (a directory, a file without permission), or a path on
  which \<^verbatim>\<open>stat\<close> itself fails (a name longer than the file system allows), so that
  \<^verbatim>\<open>Path.exists\<close> raises. \<^verbatim>\<open>Path.exists\<close>, \<^verbatim>\<open>Path.rglob\<close> and \<^verbatim>\<open>_read_file_lines\<close> are
  called outside every \<^verbatim>\<open>try\<close> block: their exceptions leave \<^verbatim>\<open>_apply_fix\<close> and
  \<^verbatim>\<open>fix_agent\<close>.
\<close>

datatype fs_entry = File string | Unreadable string | Unstattable string

type_synonym filesystem = "string \<Rightarrow> fs_entry option"

text \<open>
  The exceptions that leave a step: by their class, with their text. The last one is
  raised by the graph library when a run exceeds its budget of node executions.
\<close>

datatype raised = OSError string | ValueError string | GraphRecursionError

datatype llm_reply = Content "string option" | Llm_raises string

text \<open>
  \<^verbatim>\<open>list(Path(clone_path).rglob(name))\<close>: the candidates, or the exception raised for a
  name that is no acceptable pattern (an empty name, a name containing \<^verbatim>\<open>**\<close>).
\<close>

datatype rglob_result = Candidates "string list" | Rglob_raises raised

text \<open>
  What the fix step cannot compute itself: the tree it starts from; \<^verbatim>\<open>pathlib\<close>'s join
  of the clone path and the failure's file; the answer of \<^verbatim>\<open>rglob\<close> for the failure's
  file name; the paths on which opening for writing raises; and the completion
  service, which sees the prompt (a text built from the failure, the bounds of the
  context window and the window itself).
\<close>

record fix_world =
  tree :: filesystem
  abs_path_of :: "string \<Rightarrow> string \<Rightarrow> string"
  rglob :: "string \<Rightarrow> string \<Rightarrow> rglob_result"
  write_error :: "string \<Rightarrow> string option"
  llm :: "FailureEvent \<Rightarrow> int \<Rightarrow> int \<Rightarrow> string \<Rightarrow> llm_reply"

text \<open>\<^verbatim>\<open>Path(p).exists()\<close>\<close>

definition path_exists :: "filesystem \<Rightarrow> string \<Rightarrow> raised + bool" where
  "path_exists fs p =
     (case fs p of
        None \<Rightarrow> Inr False
      | Some (Unstattable exc) \<Rightarrow> Inl (OSError exc)
      | Some _ \<Rightarrow> Inr True)"

definition read_file_lines :: "filesystem \<Rightarrow> string \<Rightarrow> raised + string list" where
  "read_file_lines fs filepath =
     (case fs filepath of
        Some (File text) \<Rightarrow> Inr (readlines (universal_newlines text) [])
      | Some (Unreadable exc) \<Rightarrow> Inl (OSError exc)
      | Some (Unstattable exc) \<Rightarrow> Inl (OSError exc)
      | None \<Rightarrow> Inl (OSError ''No such file or directory''))"

definition write_file_lines ::
  "fix_world \<Rightarrow> filesystem \<Rightarrow> string \<Rightarrow> string list \<Rightarrow> string + filesystem" where
  "write_file_lines w fs filepath lines =
     (case write_error w filepath of
        Some exc \<Rightarrow> Inl exc
      | None \<Rightarrow> Inr (fs(filepath \<mapsto> File (concat lines))))"

definition call_llm :: "fix_world \<Rightarrow> FailureEvent \<Rightarrow> int \<Rightarrow> int \<Rightarrow> string \<Rightarrow> string" where
  "call_llm w failure start end_i context =
     (case llm w failure start end_i context of
        Content (Some text) \<Rightarrow> text
      | Content None \<Rightarrow> []
      | Llm_raises exc \<Rightarrow>
          ''---FIX_DESC---rule-based fix applied'' @ [LF] @ ''---FIXED_CODE---# LLM error: '' @ exc)"

text \<open>
  \<^verbatim>\<open>_parse_llm_response\<close>. Both groups are lazy and end at \<^verbatim>\<open>$\<close>, which also matches
  before a final line feed; \<^verbatim>\<open>strip\<close> removes that line feed in either case.
\<close>

definition parse_llm_response :: "string \<Rightarrow> string \<times> string" where
  "parse_llm_response response =
     (let fix_desc =
            (case after_first ''---FIX_DESC---'' response of
               Some rest \<Rightarrow> py_strip (before_first ''---FIXED_CODE---'' rest)
             | None \<Rightarrow> ''apply automated fix'');
          fixed_code =
            (case after_first ''---FIXED_CODE---'' response of
               Some rest \<Rightarrow> py_strip rest
             | None \<Rightarrow> [])
      in (fix_desc, fixed_code))"

subsection \<open>Rule-based fallback\<close>

text \<open>\<^verbatim>\<open>re.sub(r"^\t+", lambda m: "    " * len(m.group()), line)\<close>\<close>

definition indent_sub :: "string \<Rightarrow> string" where
  "indent_sub text_line =
     (let n = length (takeWhile (\<lambda>c. c = TAB) text_line)
      in if n = 0 then text_line else replicate (4 * n) SPACE @ drop n text_line)"

definition rule_based_fix :: "FailureEvent \<Rightarrow> string list \<Rightarrow> string \<times> string list" where
  "rule_based_fix failure code_lines =
     (let line_idx = line failure - 1 in
      if bug_type failure = ''INDENTATION'' \<and> 0 \<le> line_idx \<and> line_idx < int (length code_lines)
      then (''fix indentation to use 4 spaces consistently'',
            code_lines[nat line_idx := indent_sub (code_lines ! nat line_idx)])
      else if bug_type failure = ''IMPORT'' \<and> 0 \<le> line_idx \<and> line_idx < int (length code_lines)
      then (''remove the unused import statement'',
            code_lines[nat line_idx :=
              ''# '' @ py_rstrip (code_lines ! nat line_idx) @ ''  # removed unused import'' @ [LF]])
      else (''apply automated fix'', code_lines))"

subsection \<open>Core fix logic\<close>

definition fix_record :: "FailureEvent \<Rightarrow> string \<Rightarrow> string \<Rightarrow> string \<Rightarrow> FixRecord" where
  "fix_record failure description written st =
     \<lparr>fix_bug_type = bug_type failure, fix_file = file_path failure, fix_line = line failure,
      fix_description = description, patch = written, fix_status = st\<rparr>"

text \<open>
  The branch of \<^verbatim>\<open>_apply_fix\<close> taken with a credential that starts with \<^verbatim>\<open>sk-\<close>:
  \<open>Some\<close> is a \<^verbatim>\<open>return\<close> inside the branch, \<open>None\<close> is falling out of it to the
  rule-based fallback (an empty \<^verbatim>\<open>fixed_code\<close>).
\<close>

definition llm_fix ::
  "fix_world \<Rightarrow> filesystem \<Rightarrow> FailureEvent \<Rightarrow> string \<Rightarrow> string list
     \<Rightarrow> (FixRecord \<times> filesystem) option" where
  "llm_fix w fs failure abs_path original_lines =
     (let start = max 0 (line failure - 11);
          end_i = min (int (length original_lines)) (line failure + 10);
          context = concat (py_slice original_lines start end_i);
          llm_response = call_llm w failure start end_i context;
          (fix_desc, fixed_code) = parse_llm_response llm_response
      in if fixed_code \<noteq> []
         then
           (let replacement = splitlines_keepends fixed_code [];
                fixed_lines = py_slice_assign original_lines start end_i replacement
            in case write_file_lines w fs abs_path fixed_lines of
                 Inr fs' \<Rightarrow> Some (fix_record failure fix_desc fixed_code ''applied'', fs')
               | Inl exc \<Rightarrow>
                   Some (fix_record failure (''LLM fix write error: '' @ exc) [] ''failed'', fs))
         else None)"

definition rule_fix ::
  "fix_world \<Rightarrow> filesystem \<Rightarrow> FailureEvent \<Rightarrow> string \<Rightarrow> string list
     \<Rightarrow> FixRecord \<times> filesystem" where
  "rule_fix w fs failure abs_path original_lines =
     (let (fix_desc, fixed_lines) = rule_based_fix failure original_lines
      in case write_file_lines w fs abs_path fixed_lines of
           Inr fs' \<Rightarrow> (fix_record failure fix_desc (concat fixed_lines) ''applied'', fs')
         | Inl exc \<Rightarrow>
             (fix_record failure (''rule-based fix error: '' @ exc) [] ''failed'', fs))"

text \<open>
  The first lines of \<^verbatim>\<open>_apply_fix\<close>: the joined path, or the first candidate of \<^verbatim>\<open>rglob\<close>
  when the joined path does not exist.
\<close>

definition resolve_path ::
  "fix_world \<Rightarrow> filesystem \<Rightarrow> string \<Rightarrow> FailureEvent \<Rightarrow> raised + string" where
  "resolve_path w fs clone_dir failure =
     (let joined = abs_path_of w clone_dir (file_path failure)
      in case path_exists fs joined of
           Inl exc \<Rightarrow> Inl exc
         | Inr True \<Rightarrow> Inr joined
         | Inr False \<Rightarrow>
             (case rglob w clone_dir (file_path failure) of
                Rglob_raises exc \<Rightarrow> Inl exc
              | Candidates [] \<Rightarrow> Inr joined
              | Candidates (candidate # _) \<Rightarrow> Inr candidate))"

text \<open>
  The rest of \<^verbatim>\<open>_apply_fix\<close> once the file exists and has been read: the delegate branch
  when the credential starts with \<^verbatim>\<open>sk-\<close>, the rule-based fallback when that branch is
  not taken or falls through.
\<close>

definition fix_existing ::
  "fix_world \<Rightarrow> filesystem \<Rightarrow> FailureEvent \<Rightarrow> string \<Rightarrow> string \<Rightarrow> string list
     \<Rightarrow> FixRecord \<times> filesystem" where
  "fix_existing w fs failure key abs_path original_lines =
     (case (if key \<noteq> [] \<and> prefix ''sk-'' key
            then llm_fix w fs failure abs_path original_lines
            else None) of
        Some returned \<Rightarrow> returned
      | None \<Rightarrow> rule_fix w fs failure abs_path original_lines)"

definition apply_fix ::
  "fix_world \<Rightarrow> filesystem \<Rightarrow> FailureEvent \<Rightarrow> string \<Rightarrow> string
     \<Rightarrow> raised + (FixRecord \<times> filesystem)" where
  "apply_fix w fs failure clone_dir key =
     (case resolve_path w fs clone_dir failure of
        Inl exc \<Rightarrow> Inl exc
      | Inr abs_path \<Rightarrow>
          (case path_exists fs abs_path of
             Inl exc \<Rightarrow> Inl exc
           | Inr False \<Rightarrow>
               Inr (fix_record failure
                      (''file not found '' @ [CHR 0xE2, CHR 0x80, CHR 0x93] @ '' skipped'')
                      [] ''failed'', fs)
           | Inr True \<Rightarrow>
               (case read_file_lines fs abs_path of
                  Inl exc \<Rightarrow> Inl exc
                | Inr original_lines \<Rightarrow>
                    Inr (fix_existing w fs failure key abs_path original_lines))))"

text \<open>The loop \<^verbatim>\<open>for failure in failures\<close> of \<^verbatim>\<open>fix_agent\<close>, threading the tree.\<close>

fun fix_loop ::
  "fix_world \<Rightarrow> filesystem \<Rightarrow> string \<Rightarrow> string \<Rightarrow> FailureEvent list \<Rightarrow> FixRecord list
     \<Rightarrow> raised + (FixRecord list \<times> filesystem)" where
  "fix_loop w fs clone_dir key [] fixes_acc = Inr (fixes_acc, fs)"
| "fix_loop w fs clone_dir key (failure # rest) fixes_acc =
     (case apply_fix w fs failure clone_dir key of
        Inl exc \<Rightarrow> Inl exc
      | Inr (fix, fs') \<Rightarrow> fix_loop w fs' clone_dir key rest (fixes_acc @ [fix]))"

definition fix_agent :: "fix_world \<Rightarrow> AgentState \<Rightarrow> raised + (AgentState \<times> filesystem)" where
  "fix_agent w state =
     (if failures state = [] \<or> status state = ''failed'' then Inr (state, tree w)
      else
        let timeline = cicd_timeline state @ [timeline_event ''fix_started'' ''running'']
        in case fix_loop w (tree w) (clone_path state) (openai_key state) (failures state) [] of
             Inl exc \<Rightarrow> Inl exc
           | Inr (new_fixes, fs') \<Rightarrow>
               Inr (state\<lparr>fix_records := new_fixes,
                          cicd_timeline := timeline @
                            [timeline_event ''fix_complete''
                               (if 0 < applied_fixes new_fixes then ''success'' else ''failure'')]\<rparr>,
                    fs'))"

section \<open>The graph (agent/orchestrator.py)\<close>

datatype node = Clone | Analyze | Fix | Git | Cicd_monitor | Increment_retry | Score | END

text \<open>
  The outside world of a run: what each step is answered, as a function of the state
  the step receives.
\<close>

record world =
  w_clone :: "AgentState \<Rightarrow> clone_result"
  w_analyze :: "AgentState \<Rightarrow> analyze_result"
  w_fix :: "AgentState \<Rightarrow> fix_world"
  w_git :: "AgentState \<Rightarrow> git_result"
  w_cicd :: "AgentState \<Rightarrow> cicd_remote"

text \<open>
  The mapping of the conditional edge after \<^verbatim>\<open>cicd_monitor\<close>:
  \<^verbatim>\<open>{"score": "score", "analyze": "increment_retry"}\<close>.
\<close>

definition retry_edge :: "string \<Rightarrow> node" where
  "retry_edge label = (if label = ''score'' then Score else Increment_retry)"

text \<open>
  One node of \<^verbatim>\<open>build_graph\<close>: the node runs on the state, then the edge leaving it is
  followed. An exception that leaves a node ends the run.
\<close>

fun node_step :: "world \<Rightarrow> node \<Rightarrow> AgentState \<Rightarrow> raised + (node \<times> AgentState)" where
  "node_step w Clone s = Inr (Analyze, clone_agent (w_clone w s) s)"
| "node_step w Analyze s = Inr (Fix, analyze_agent (w_analyze w s) s)"
| "node_step w Fix s =
     (case fix_agent (w_fix w s) s of
        Inl exc \<Rightarrow> Inl exc
      | Inr (s', fs') \<Rightarrow> Inr (Git, s'))"
| "node_step w Git s = Inr (Cicd_monitor, git_agent (w_git w s) s)"
| "node_step w Cicd_monitor s =
     (let s' = cicd_agent (w_cicd w s) s in Inr (retry_edge (should_retry s'), s'))"
| "node_step w Increment_retry s = Inr (Analyze, increment_retry s)"
| "node_step w Score s = Inr (END, score_agent s)"
| "node_step w END s = Inr (END, s)"

text \<open>
  The step relation of the pipeline in a given world, and in some world: a configuration
  is the node about to run and the state it will receive.
\<close>

definition step_of :: "world \<Rightarrow> node \<times> AgentState \<Rightarrow> node \<times> AgentState \<Rightarrow> bool" where
  "step_of w c c' = (fst c \<noteq> END \<and> node_step w (fst c) (snd c) = Inr c')"

definition step :: "node \<times> AgentState \<Rightarrow> node \<times> AgentState \<Rightarrow> bool" where
  "step c c' = (\<exists>w. step_of w c c')"

text \<open>
  \<^verbatim>\<open>graph.invoke\<close>: nodes are run from the entry point until \<^verbatim>\<open>END\<close>. The graph library
  allows a run a budget of node executions, its recursion limit, and raises
  \<^verbatim>\<open>GraphRecursionError\<close> when the budget is used up before \<^verbatim>\<open>END\<close> is reached. The
  library is not part of the repository: the budget is counted here in executions of
  the nodes of \<^verbatim>\<open>build_graph\<close>, and \<^verbatim>\<open>run_pipeline\<close>, which passes no configuration to
  \<^verbatim>\<open>invoke\<close>, runs with the library's default of 25.
\<close>

fun run_graph :: "world \<Rightarrow> nat \<Rightarrow> node \<Rightarrow> AgentState \<Rightarrow> raised + AgentState" where
  "run_graph w 0 n s = (if n = END then Inr s else Inl GraphRecursionError)"
| "run_graph w (Suc budget) n s =
     (if n = END then Inr s
      else case node_step w n s of
             Inl exc \<Rightarrow> Inl exc
           | Inr (n', s') \<Rightarrow> run_graph w budget n' s')"

definition recursion_limit :: nat where
  "recursion_limit = 25"

text \<open>
  The initial state of \<^verbatim>\<open>run_pipeline\<close>. Its score dictionary has no entry for the base
  score, the speed bonus and the efficiency penalty; they are 0 here, and no step reads
  the score before the score step replaces it.
\<close>

definition initial_state ::
  "string \<Rightarrow> string \<Rightarrow> string \<Rightarrow> string \<Rightarrow> string \<Rightarrow> int \<Rightarrow> string \<Rightarrow> string \<Rightarrow> AgentState" where
  "initial_state url team leader key token limit uuid started =
     \<lparr>repo_url = url, team_name = team, leader_name = leader, openai_key = key,
      retry_limit = limit, github_token = token,
      branch_name = [], clone_path = [], language = ''python'',
      failures = [], total_tests = 0, tests_passed = 0, tests_failed = 0,
      fix_records = [], commit_sha = [], pr_url = [],
      cicd_timeline = [], cicd_status = ''pending'',
      score = \<lparr>tests_passed_pct = 0, fixes_applied = 0, fix_quality_score = 0,
               ci_success_bonus = 0, base_score = 0, speed_bonus = 0,
               efficiency_penalty = 0, total_score = 0\<rparr>,
      retry_count = 0, status = ''running'', error_message = None,
      run_id = uuid, started_at = started, finished_at = [], duration_seconds = 0\<rparr>"

text \<open>
  \<^verbatim>\<open>run_pipeline\<close>: the graph is run on the initial state; the finishing time and the
  elapsed seconds are written into the final state afterwards.
\<close>

definition run_pipeline ::
  "world \<Rightarrow> string \<Rightarrow> string \<Rightarrow> string \<Rightarrow> string \<Rightarrow> string \<Rightarrow> int \<Rightarrow> string \<Rightarrow> string
     \<Rightarrow> string \<Rightarrow> rat \<Rightarrow> raised + AgentState" where
  "run_pipeline w url team leader key token limit uuid started finished elapsed =
     (case run_graph w recursion_limit Clone
             (initial_state url team leader key token limit uuid started) of
        Inl exc \<Rightarrow> Inl exc
      | Inr final_state \<Rightarrow>
          Inr (final_state\<lparr>finished_at := finished,
                           duration_seconds := py_round elapsed 2\<rparr>))"

section \<open>Trigger endpoint (main.py)\<close>

text \<open>
  The shared dictionary \<^verbatim>\<open>_pipeline_state\<close>. \<^verbatim>\<open>run_agent\<close> reads and writes it under the
  lock, so the handler is one atomic transition of it. The result is the response (the
  HTTP exception with its status code, or the acknowledgment), the new dictionary, and
  whether the background task was added.
\<close>

record pipeline_state =
  ps_status :: string
  ps_run_id :: "string option"
  ps_data :: "AgentState option"
  ps_error :: "string option"

datatype response = HTTPException nat string | Acknowledgment string string string

definition run_agent :: "pipeline_state \<Rightarrow> response \<times> pipeline_state \<times> bool" where
  "run_agent ps =
     (if ps_status ps = ''running''
      then (HTTPException 409 ''Pipeline is already running. Wait for it to complete.'', ps, False)
      else (Acknowledgment ''Pipeline started successfully'' ''queued'' ''/docs'',
            ps\<lparr>ps_status := ''queued'', ps_run_id := None, ps_data := None, ps_error := None\<rparr>,
            True))"

text \<open>The first locked block of \<^verbatim>\<open>_run_pipeline_task\<close>, run when the background task starts.\<close>

definition task_started :: "pipeline_state \<Rightarrow> pipeline_state" where
  "task_started ps = ps\<lparr>ps_status := ''running'', ps_error := None\<rparr>"

section \<open>Invariant of the retry counter\<close>

text \<open>
  The retry count is at most the retry limit, and strictly below it when the retry node
  is about to run.
\<close>

definition within_limit :: "node \<times> AgentState \<Rightarrow> bool" where
  "within_limit c =
     (retry_count (snd c) \<le> retry_limit (snd c)
      \<and> (fst c = Increment_retry \<longrightarrow> retry_count (snd c) < retry_limit (snd c)))"

section \<open>Example inputs\<close>

text \<open>A state whose summary line reported more passed tests than tests.\<close>

definition overcounted_example :: AgentState where
  "overcounted_example =
     (initial_state [] [] [] [] [] 5 [] [])\<lparr>total_tests := 1, tests_passed := 2,
        cicd_status := ''success''\<rparr>"


text \<open>The shared dictionary while a run executes, and before any run.\<close>

definition running_pipeline :: pipeline_state where
  "running_pipeline =
     \<lparr>ps_status = ''running'', ps_run_id = Some ''r1'', ps_data = None, ps_error = None\<rparr>"

definition idle_pipeline :: pipeline_state where
  "idle_pipeline = \<lparr>ps_status = ''idle'', ps_run_id = None, ps_data = None, ps_error = None\<rparr>"

text \<open>
  A cloned repository before analysis, and four findings of which the third repeats the
  key of the first with another message.
\<close>

definition cloned_example :: AgentState where
  "cloned_example =
     (initial_state [] [] [] [] [] 5 [] [])\<lparr>clone_path := ''/tmp/rift_agent_1''\<rparr>"

definition found_example :: "FailureEvent list" where
  "found_example =
     [\<lparr>bug_type = ''LINTING'', file_path = ''a.py'', line = 3, message = ''first''\<rparr>,
      \<lparr>bug_type = ''SYNTAX'', file_path = ''a.py'', line = 3, message = ''second''\<rparr>,
      \<lparr>bug_type = ''LINTING'', file_path = ''a.py'', line = 3, message = ''third''\<rparr>,
      \<lparr>bug_type = ''LINTING'', file_path = ''b.py'', line = 3, message = ''fourth''\<rparr>]"

text \<open>
  A working tree with one file, a completion service that times out, a finding in that
  file, and a state of the fix step with that finding and one in a missing file.
\<close>

definition fix_world_example :: fix_world where
  "fix_world_example =
     \<lparr>tree = [''/r/a.py'' \<mapsto> File (''x = 1'' @ [LF] @ ''import os'' @ [LF])],
      abs_path_of = (\<lambda>clone_dir f. clone_dir @ ''/'' @ f),
      rglob = (\<lambda>clone_dir f. Candidates []),
      write_error = (\<lambda>p. None),
      llm = (\<lambda>failure start end_i context. Llm_raises ''timeout'')\<rparr>"

definition syntax_failure_example :: FailureEvent where
  "syntax_failure_example =
     \<lparr>bug_type = ''SYNTAX'', file_path = ''a.py'', line = 1, message = ''invalid syntax''\<rparr>"

definition fixing_example :: AgentState where
  "fixing_example =
     (initial_state [] [] [] [] [] 5 [] [])\<lparr>clone_path := ''/r'',
        failures := [syntax_failure_example,
                     \<lparr>bug_type = ''IMPORT'', file_path = ''b.py'', line = 2,
                        message = ''unused import''\<rparr>]\<rparr>"

text \<open>
  A working tree in which \<^verbatim>\<open>pkg\<close> is a directory and every path of more than 255
  characters is refused by the file system, with an \<^verbatim>\<open>rglob\<close> that rejects the pattern
  \<^verbatim>\<open>**.py\<close>; and the state of the fix step with one finding in a given file.
\<close>

definition broken_tree_world :: fix_world where
  "broken_tree_world =
     \<lparr>tree = (\<lambda>p. if 255 < length p then Some (Unstattable ''File name too long'')
                   else if p = ''/r/pkg'' then Some (Unreadable ''Is a directory'')
                   else None),
      abs_path_of = (\<lambda>clone_dir f. clone_dir @ ''/'' @ f),
      rglob = (\<lambda>clone_dir f. if f = ''**.py''
                 then Rglob_raises (ValueError ''Invalid pattern'') else Candidates []),
      write_error = (\<lambda>p. None),
      llm = (\<lambda>failure start end_i context. Content None)\<rparr>"

definition finding_in :: "string \<Rightarrow> AgentState" where
  "finding_in f =
     (initial_state [] [] [] [] [] 5 [] [])\<lparr>clone_path := ''/r'',
        failures := [\<lparr>bug_type = ''LINTING'', file_path = f, line = 1, message = []\<rparr>]\<rparr>"

text \<open>
  A world in which the clone fails, and one in which the clone succeeds, no failure is
  found, nothing is committed and the verify step never reports success.
\<close>

definition failing_clone_world :: world where
  "failing_clone_world =
     \<lparr>w_clone = (\<lambda>s. Clone_raises ''repository not found''),
      w_analyze = (\<lambda>s. Parsed [] 0 0),
      w_fix = (\<lambda>s. fix_world_example),
      w_git = (\<lambda>s. Nothing_to_commit),
      w_cicd = (\<lambda>s. \<lparr>url_parses = False, latest_run = No_workflow_run,
                       poll = (\<lambda>i. Poll_raises [])\<rparr>)\<rparr>"

definition failing_ci_world :: world where
  "failing_ci_world = failing_clone_world\<lparr>w_clone := (\<lambda>s. Cloned ''/tmp'' ''1'' 1 0 0)\<rparr>"

section \<open>Properties of the floating-point arithmetic\<close>

lemma round_half_even_of_int [simp]: "round_half_even (of_int m) = m"
  by (simp add: round_half_even_def)

lemma to_double_of_int:
  assumes "\<bar>n\<bar> < 2 ^ 53"
  shows "to_double (of_int n) = of_int n"
proof (cases "n = 0")
  case True
  then show ?thesis by (simp add: to_double_def)
next
  case False
  then have pos: "0 < \<bar>n\<bar>" by simp
  have "1 \<le> \<bar>n\<bar>" using False by simp
  then have "(of_int 1 :: rat) \<le> of_int \<bar>n\<bar>" by (simp only: of_int_le_iff)
  then have abs1: "(1::rat) \<le> \<bar>of_int n\<bar>" by simp
  have fl: "\<lfloor>\<bar>of_int n :: rat\<bar>\<rfloor> = \<bar>n\<bar>" by (metis floor_of_int of_int_abs)
  from assms have "bitlen \<bar>n\<bar> \<le> 53" by (simp add: bitlen_le_iff_power)
  then have e: "binary_exponent (of_int n) - 52 \<le> 0"
    using abs1 fl by (simp add: binary_exponent_def)
  define j where "j = nat (- (binary_exponent (of_int n) - 52))"
  from e have u: "pow2 (binary_exponent (of_int n) - 52) = 1 / 2 ^ j"
    by (cases "binary_exponent (of_int n) - 52 = 0") (simp_all add: pow2_def j_def)
  have "(of_int n :: rat) / (1 / 2 ^ j) = of_int (n * 2 ^ j)" by simp
  then have "round_half_even (of_int n / (1 / 2 ^ j)) = n * 2 ^ j"
    by (simp only: round_half_even_of_int)
  with False u show ?thesis by (simp add: to_double_def Let_def)
qed

lemma to_double_numeral [simp]:
  "numeral k < (2::int) ^ 53 \<Longrightarrow> to_double (numeral k) = numeral k"
  using to_double_of_int [of "numeral k"] by simp

lemma to_double_0 [simp]: "to_double 0 = 0"
  by (simp add: to_double_def)

lemma to_double_1 [simp]: "to_double 1 = 1"
  using to_double_of_int [of 1] by simp

lemma py_round_of_int:
  assumes "\<bar>n\<bar> < 2 ^ 53"
  shows "py_round (of_int n) k = of_int n"
proof -
  have "(of_int n :: rat) * 10 ^ k = of_int (n * 10 ^ k)" by simp
  then have "round_half_even (of_int n * 10 ^ k) = n * 10 ^ k"
    by (simp only: round_half_even_of_int)
  then show ?thesis using assms by (simp add: py_round_def to_double_of_int)
qed

lemma py_round_numeral [simp]:
  "numeral m < (2::int) ^ 53 \<Longrightarrow> py_round (numeral m) k = numeral m"
  using py_round_of_int [of "numeral m" k] by simp

lemma py_round_0 [simp]: "py_round 0 k = 0"
  using py_round_of_int [of 0 k] by simp

section \<open>Properties of the score step\<close>

lemma score_of_score_agent:
  "score (score_agent s) =
     \<lparr>tests_passed_pct = py_round (tests_passed_pct_of s) 1,
      fixes_applied = applied_fixes (fix_records s),
      fix_quality_score = py_round (fix_quality_score_of s) 2,
      ci_success_bonus = ci_bonus_of s,
      base_score = py_round (base_score_of s) 2,
      speed_bonus = speed_bonus_of s,
      efficiency_penalty = efficiency_penalty_of s,
      total_score = total_score_of s\<rparr>"
  by (simp add: score_agent_def Let_def)


lemma status_of_score_agent:
  "status (score_agent s) = (if 50 \<le> total_score_of s then ''success'' else ''partial'')"
  by (simp add: score_agent_def Let_def)




lemma overcounted_example_fields:
  "total_tests overcounted_example = 1" "tests_passed overcounted_example = 2"
  "failures overcounted_example = []" "cicd_status overcounted_example = ''success''"
  "duration_seconds overcounted_example < 300" "retry_count overcounted_example \<le> 19"
  by (simp_all add: overcounted_example_def initial_state_def)

text \<open>
  Claim C1 at its failing input. The score step does not bound its components: when
  the summary line reports one test and two passed tests, with no failure, a successful
  CI run, less than 300 seconds elapsed and fewer than 20 retries, the tests component
  is 80 of at most 40, the base score is 140 of at most 100, and the total score is
  150, above the maximum of 110 that the step documents. No float operation rounds at
  this input.
\<close>

theorem score_agent_exceeds_maximum:
  assumes "total_tests s = 1" and "tests_passed s = 2" and "failures s = []"
    and "cicd_status s = ''success''" and "duration_seconds s < 300" and "retry_count s \<le> 19"
  shows "tests_score_of s = 80
       \<and> fix_quality_score (score (score_agent s)) = 40
       \<and> ci_success_bonus (score (score_agent s)) = 20
       \<and> base_score (score (score_agent s)) = 140
       \<and> speed_bonus (score (score_agent s)) = 10
       \<and> efficiency_penalty (score (score_agent s)) = 0
       \<and> total_score (score (score_agent s)) = 150
       \<and> \<not> total_score (score (score_agent s)) \<le> 110
       \<and> status (score_agent s) = ''success''"
proof -
  have ts: "tests_score_of s = 80" using assms by (simp add: tests_score_of_def)
  have fq: "fix_quality_score_of s = 40" using assms by (simp add: fix_quality_score_of_def)
  have ci: "ci_bonus_of s = 20" using assms by (simp add: ci_bonus_of_def)
  have sb: "speed_bonus_of s = 10" using assms by (simp add: speed_bonus_of_def)
  have ep: "efficiency_penalty_of s = 0" using assms by (simp add: efficiency_penalty_of_def)
  have bs: "base_score_of s = 140" by (simp add: base_score_of_def ts fq ci)
  have tot: "total_score_of s = 150" by (simp add: total_score_of_def bs sb ep)
  show ?thesis
    by (simp add: score_of_score_agent status_of_score_agent ts fq ci sb ep bs tot)
qed

theorem score_agent_exceeds_maximum_witness:
  "total_tests overcounted_example = 1 \<and> tests_passed overcounted_example = 2
   \<and> failures overcounted_example = [] \<and> cicd_status overcounted_example = ''success''
   \<and> duration_seconds overcounted_example < 300 \<and> retry_count overcounted_example \<le> 19
   \<and> total_score (score (score_agent overcounted_example)) = 150
   \<and> \<not> total_score (score (score_agent overcounted_example)) \<le> 110"
  using score_agent_exceeds_maximum [OF overcounted_example_fields] overcounted_example_fields
  by simp


section \<open>Properties of the conditional edge\<close>

text \<open>
  Claim C2. After the verify step the decision function answers \<^verbatim>\<open>score\<close> if the status
  is \<^verbatim>\<open>failed\<close>, else \<^verbatim>\<open>score\<close> if the CI outcome is \<^verbatim>\<open>success\<close>, else \<^verbatim>\<open>score\<close> if the
  retry count has reached the retry limit, else \<^verbatim>\<open>analyze\<close>. The graph follows it on the
  state the verify step returns: to the score node in the first three cases, to the
  retry node otherwise. The retry node adds exactly one to the retry count, empties the
  fix list, leaves every other field as it was, and is followed by the analyze node.
\<close>

theorem should_retry_precedence:
  "should_retry s =
     (if status s = ''failed'' then ''score''
      else if cicd_status s = ''success'' then ''score''
      else if retry_count s \<ge> retry_limit s then ''score''
      else ''analyze'')
   \<and> (let s' = cicd_agent (w_cicd w s) s
      in node_step w Cicd_monitor s =
           Inr (if status s' = ''failed'' \<or> cicd_status s' = ''success''
                    \<or> retry_count s' \<ge> retry_limit s'
                then Score else Increment_retry, s'))
   \<and> node_step w Increment_retry s =
         Inr (Analyze, s\<lparr>retry_count := retry_count s + 1, fix_records := []\<rparr>)
   \<and> retry_count (increment_retry s) = retry_count s + 1
   \<and> fix_records (increment_retry s) = []"
  by (simp add: should_retry_def retry_edge_def increment_retry_def Let_def)

section \<open>Properties of the trigger endpoint\<close>

text \<open>
  Claim C10 at its failing input. A trigger that finds the status \<^verbatim>\<open>running\<close> is answered
  with the HTTP exception 409, adds no background task and leaves the shared dictionary
  as it was. But the handler marks the run it accepts as \<^verbatim>\<open>queued\<close>, and the guard tests
  for \<^verbatim>\<open>running\<close> only, which the background task writes when it starts: a second
  trigger that arrives before that is accepted as well. From every status other than
  \<^verbatim>\<open>running\<close>, two triggers in a row are both acknowledged and both add a background
  task, the second one while the run accepted by the first is pending.
\<close>

theorem run_agent_accepts_second_trigger:
  "(ps_status ps = ''running'' \<longrightarrow>
      run_agent ps =
        (HTTPException 409 ''Pipeline is already running. Wait for it to complete.'', ps, False))
   \<and> (ps_status ps \<noteq> ''running'' \<longrightarrow>
        (let (r1, ps1, added1) = run_agent ps;
             (r2, ps2, added2) = run_agent ps1
         in r1 = Acknowledgment ''Pipeline started successfully'' ''queued'' ''/docs''
            \<and> added1
            \<and> ps1 = \<lparr>ps_status = ''queued'', ps_run_id = None, ps_data = None, ps_error = None\<rparr>
            \<and> r2 = Acknowledgment ''Pipeline started successfully'' ''queued'' ''/docs''
            \<and> added2
            \<and> ps2 = ps1))"
  by (simp add: run_agent_def)

theorem run_agent_accepts_second_trigger_witness:
  "ps_status running_pipeline = ''running''
   \<and> run_agent running_pipeline =
        (HTTPException 409 ''Pipeline is already running. Wait for it to complete.'',
         running_pipeline, False)
   \<and> ps_status idle_pipeline \<noteq> ''running''
   \<and> fst (run_agent idle_pipeline) =
        Acknowledgment ''Pipeline started successfully'' ''queued'' ''/docs''
   \<and> snd (snd (run_agent idle_pipeline))
   \<and> ps_status (fst (snd (run_agent idle_pipeline))) = ''queued''
   \<and> fst (run_agent (fst (snd (run_agent idle_pipeline)))) =
        Acknowledgment ''Pipeline started successfully'' ''queued'' ''/docs''
   \<and> snd (snd (run_agent (fst (snd (run_agent idle_pipeline)))))"
  using run_agent_accepts_second_trigger [of running_pipeline]
    run_agent_accepts_second_trigger [of idle_pipeline]
  by (simp add: running_pipeline_def idle_pipeline_def Let_def split: prod.splits)

section \<open>Properties of the rule-based fallback\<close>

lemma takeWhile_tabs:
  "rest = [] \<or> hd rest \<noteq> TAB \<Longrightarrow> takeWhile (\<lambda>c. c = TAB) (replicate n TAB @ rest) = replicate n TAB"
  by (induction n) (cases rest; simp)+

lemma indent_sub_tabs:
  assumes "0 < n" and "rest = [] \<or> hd rest \<noteq> TAB"
  shows "indent_sub (replicate n TAB @ rest) = replicate (4 * n) SPACE @ rest"
  using assms by (simp add: indent_sub_def takeWhile_tabs Let_def)

text \<open>
  Claim C9, amended. A line made of \<open>n \<ge> 1\<close> tabs followed by a remainder that does not
  start with a tab is rewritten by the INDENTATION transform to \<open>4 * n\<close> spaces followed
  by the same remainder. The tabs of the result are exactly the tabs of the remainder:
  the result has no tab when the remainder has none. \<^verbatim>\<open>_rule_based_fix\<close> replaces the
  failing line by that result and leaves the other lines as they were.
\<close>

theorem indent_sub_leading_tabs:
  assumes "1 \<le> n" and "rest = [] \<or> hd rest \<noteq> TAB"
  shows "indent_sub (replicate n TAB @ rest) = replicate (4 * n) SPACE @ rest
       \<and> filter (\<lambda>c. c = TAB) (indent_sub (replicate n TAB @ rest)) = filter (\<lambda>c. c = TAB) rest
       \<and> (TAB \<notin> set rest \<longrightarrow> TAB \<notin> set (indent_sub (replicate n TAB @ rest)))
       \<and> (bug_type failure = ''INDENTATION'' \<and> line failure = int (length before) + 1 \<longrightarrow>
            snd (rule_based_fix failure (before @ (replicate n TAB @ rest) # after))
              = before @ (replicate (4 * n) SPACE @ rest) # after)"
proof -
  have eq: "indent_sub (replicate n TAB @ rest) = replicate (4 * n) SPACE @ rest"
    using assms by (simp add: indent_sub_tabs)
  have "filter (\<lambda>c. c = TAB) (replicate (4 * n) SPACE @ rest) = filter (\<lambda>c. c = TAB) rest"
    by simp
  moreover have "TAB \<notin> set rest \<longrightarrow> TAB \<notin> set (replicate (4 * n) SPACE @ rest)"
    by auto
  moreover have "bug_type failure = ''INDENTATION'' \<and> line failure = int (length before) + 1 \<longrightarrow>
            snd (rule_based_fix failure (before @ (replicate n TAB @ rest) # after))
              = before @ (replicate (4 * n) SPACE @ rest) # after"
    using eq by (simp add: rule_based_fix_def Let_def nth_append list_update_append)
  ultimately show ?thesis using eq by simp
qed

theorem indent_sub_leading_tabs_witness:
  "indent_sub [TAB, TAB, CHR ''x'', LF] = replicate 8 SPACE @ [CHR ''x'', LF]
   \<and> TAB \<notin> set (indent_sub [TAB, TAB, CHR ''x'', LF])
   \<and> snd (rule_based_fix \<lparr>bug_type = ''INDENTATION'', file_path = ''a.py'', line = 2, message = []\<rparr>
        [[CHR ''a'', LF], [TAB, TAB, CHR ''x'', LF], [CHR ''b'', LF]])
      = [[CHR ''a'', LF], replicate 8 SPACE @ [CHR ''x'', LF], [CHR ''b'', LF]]"
  using indent_sub_leading_tabs [of 2 "[CHR ''x'', LF]"
      "\<lparr>bug_type = ''INDENTATION'', file_path = ''a.py'', line = 2, message = []\<rparr>"
      "[[CHR ''a'', LF]]" "[[CHR ''b'', LF]]"]
  by (simp add: numeral_2_eq_2)

text \<open>A tab after the leading run stays: the result of the transform can contain a tab.\<close>

theorem indent_sub_keeps_inner_tab:
  "indent_sub [TAB, CHR ''x'', TAB, CHR ''y''] = replicate 4 SPACE @ [CHR ''x'', TAB, CHR ''y'']
   \<and> TAB \<in> set (indent_sub [TAB, CHR ''x'', TAB, CHR ''y''])"
  by (simp add: indent_sub_def)

section \<open>Properties of the analyze step\<close>

lemma dedup_loop_distinct:
  "distinct (map key_of deduped) \<Longrightarrow> key_of ` set deduped \<subseteq> seen
     \<Longrightarrow> distinct (map key_of (dedup_loop fs seen deduped))"
proof (induction fs arbitrary: seen deduped)
  case Nil
  then show ?case by simp
next
  case (Cons f fs)
  show ?case
  proof (cases "key_of f \<in> seen")
    case True
    with Cons show ?thesis by simp
  next
    case False
    have "distinct (map key_of (deduped @ [f]))"
      using Cons.prems False by auto
    moreover have "key_of ` set (deduped @ [f]) \<subseteq> insert (key_of f) seen"
      using Cons.prems by auto
    ultimately have "distinct (map key_of (dedup_loop fs (insert (key_of f) seen) (deduped @ [f])))"
      by (rule Cons.IH)
    with False show ?thesis by simp
  qed
qed

lemma filter_upt_Suc:
  "filter P [0..<Suc n] = (if P 0 then [0] else []) @ map Suc (filter (\<lambda>i. P (Suc i)) [0..<n])"
proof -
  have "[0..<Suc n] = 0 # map Suc [0..<n]"
    by (simp add: upt_conv_Cons map_Suc_upt del: upt_Suc)
  then show ?thesis by (simp add: filter_map o_def del: upt_Suc)
qed

lemma dedup_loop_first_occurrences:
  "dedup_loop fs seen deduped =
     deduped @ map (\<lambda>i. fs ! i)
       (filter (\<lambda>i. key_of (fs ! i) \<notin> seen \<union> key_of ` set (take i fs)) [0..<length fs])"
proof (induction fs arbitrary: seen deduped)
  case Nil
  then show ?case by simp
next
  case (Cons f fs)
  show ?case
  proof (cases "key_of f \<in> seen")
    case True
    then have same: "(k \<notin> seen \<and> k \<noteq> key_of f \<and> P) = (k \<notin> seen \<and> P)" for k P
      by auto
    from True show ?thesis
      by (simp add: Cons.IH filter_upt_Suc o_def same del: upt_Suc)
  next
    case False
    then show ?thesis
      by (simp add: Cons.IH filter_upt_Suc o_def conj_commute conj_left_commute del: upt_Suc)
  qed
qed

text \<open>
  Claim C7. The deduplicated list has no two entries with the same triple of bug type,
  file and line. It consists of exactly those entries of the sequence found whose
  triple does not occur at an earlier position, in the order of their positions: the
  first occurrence is kept and the order of first occurrence is preserved. When the
  analyze step runs (the clone path is set and the status is not \<^verbatim>\<open>failed\<close>) its failure
  list is this deduplicated list, and it is free of duplicates whatever the tools
  answered.
\<close>

theorem deduplicate_first_occurrences:
  "distinct (map key_of (deduplicate found))
   \<and> deduplicate found =
       map (\<lambda>i. found ! i)
         (filter (\<lambda>i. key_of (found ! i) \<notin> key_of ` set (take i found)) [0..<length found])
   \<and> (clone_path s \<noteq> [] \<and> status s \<noteq> ''failed'' \<longrightarrow>
        failures (analyze_agent (Parsed found n_total n_passed) s) = deduplicate found
        \<and> distinct (map key_of (failures (analyze_agent r s))))"
proof -
  have d: "distinct (map key_of (deduplicate found'))" for found'
    unfolding deduplicate_def by (rule dedup_loop_distinct) simp_all
  have c: "deduplicate found =
       map (\<lambda>i. found ! i)
         (filter (\<lambda>i. key_of (found ! i) \<notin> key_of ` set (take i found)) [0..<length found])"
    unfolding deduplicate_def by (simp add: dedup_loop_first_occurrences)
  have a: "failures (analyze_agent (Parsed found n_total n_passed) s) = deduplicate found"
    if "clone_path s \<noteq> [] \<and> status s \<noteq> ''failed''"
    using that by (simp add: analyze_agent_def Let_def)
  have b: "distinct (map key_of (failures (analyze_agent r s)))"
    if "clone_path s \<noteq> [] \<and> status s \<noteq> ''failed''"
    using that d by (cases r) (simp_all add: analyze_agent_def Let_def)
  from d c a b show ?thesis by blast
qed


lemma deduplicate_found_example:
  "deduplicate found_example = [found_example ! 0, found_example ! 1, found_example ! 3]"
  by (simp add: deduplicate_def found_example_def key_of_def)

theorem deduplicate_first_occurrences_witness:
  "clone_path cloned_example \<noteq> [] \<and> status cloned_example \<noteq> ''failed''
   \<and> failures (analyze_agent (Parsed found_example 4 1) cloned_example)
       = [found_example ! 0, found_example ! 1, found_example ! 3]
   \<and> distinct (map key_of (failures (analyze_agent (Parsed found_example 4 1) cloned_example)))"
proof -
  have run: "clone_path cloned_example \<noteq> [] \<and> status cloned_example \<noteq> ''failed''"
    by (simp add: cloned_example_def initial_state_def)
  with deduplicate_first_occurrences
    [of found_example cloned_example 4 1 "Parsed found_example 4 1"]
  have eq: "failures (analyze_agent (Parsed found_example 4 1) cloned_example)
          = deduplicate found_example"
    and d: "distinct (map key_of (failures (analyze_agent (Parsed found_example 4 1) cloned_example)))"
    by blast+
  from eq deduplicate_found_example
  have "failures (analyze_agent (Parsed found_example 4 1) cloned_example)
          = [found_example ! 0, found_example ! 1, found_example ! 3]"
    by (rule trans)
  with run d show ?thesis by blast
qed
section \<open>Properties of the fix step\<close>

lemma fix_record_key [simp]:
  "fix_bug_type (fix_record failure d p st) = bug_type failure"
  "fix_file (fix_record failure d p st) = file_path failure"
  "fix_line (fix_record failure d p st) = line failure"
  by (simp_all add: fix_record_def)

lemma llm_fix_Some:
  assumes "llm_fix w fs failure p ls = Some (r, fs')"
  shows "fix_bug_type r = bug_type failure \<and> fix_file r = file_path failure
         \<and> fix_line r = line failure"
  using assms
  by (auto simp: llm_fix_def Let_def split: prod.splits if_splits sum.splits)

lemma rule_fix_result:
  assumes "rule_fix w fs failure p ls = (r, fs')"
  shows "fix_bug_type r = bug_type failure \<and> fix_file r = file_path failure
         \<and> fix_line r = line failure"
  using assms
  by (auto simp: rule_fix_def Let_def split: prod.splits sum.splits)

lemma fix_existing_result:
  assumes "fix_existing w fs failure k p ls = (r, fs')"
  shows "fix_bug_type r = bug_type failure \<and> fix_file r = file_path failure
         \<and> fix_line r = line failure"
proof (cases "if k \<noteq> [] \<and> prefix ''sk-'' k then llm_fix w fs failure p ls else None")
  case None
  with assms have "rule_fix w fs failure p ls = (r, fs')" by (simp add: fix_existing_def)
  then show ?thesis by (rule rule_fix_result)
next
  case (Some returned)
  with assms have "returned = (r, fs')" by (simp add: fix_existing_def)
  with Some have "llm_fix w fs failure p ls = Some (r, fs')" by (simp split: if_splits)
  then show ?thesis by (rule llm_fix_Some)
qed

lemma apply_fix_Inr:
  assumes "apply_fix w fs failure d k = Inr (r, fs')"
  shows "fix_bug_type r = bug_type failure \<and> fix_file r = file_path failure
         \<and> fix_line r = line failure"
proof -
  from assms obtain p where p: "resolve_path w fs d failure = Inr p"
    by (auto simp: apply_fix_def split: sum.splits)
  with assms obtain b where b: "path_exists fs p = Inr b"
    by (auto simp: apply_fix_def split: sum.splits)
  show ?thesis
  proof (cases b)
    case False
    with assms p b show ?thesis by (auto simp: apply_fix_def)
  next
    case True
    with assms p b obtain ls where "fix_existing w fs failure k p ls = (r, fs')"
      by (auto simp: apply_fix_def split: sum.splits)
    then show ?thesis by (rule fix_existing_result)
  qed
qed

lemma fix_loop_Inr:
  "fix_loop w fs d k fls acc = Inr (res, fs') \<Longrightarrow>
     \<exists>new. res = acc @ new
       \<and> map (\<lambda>r. (fix_bug_type r, fix_file r, fix_line r)) new = map key_of fls"
proof (induction fls arbitrary: fs acc)
  case Nil
  then show ?case by simp
next
  case (Cons f fls)
  from Cons.prems obtain r fs1 where
    a: "apply_fix w fs f d k = Inr (r, fs1)"
    and l: "fix_loop w fs1 d k fls (acc @ [r]) = Inr (res, fs')"
    by (auto split: sum.splits)
  from Cons.IH [OF l] obtain new where
    new: "res = (acc @ [r]) @ new"
      "map (\<lambda>r. (fix_bug_type r, fix_file r, fix_line r)) new = map key_of fls"
    by blast
  from apply_fix_Inr [OF a] have "(fix_bug_type r, fix_file r, fix_line r) = key_of f"
    by (simp add: key_of_def)
  with new have "res = acc @ (r # new)
      \<and> map (\<lambda>r. (fix_bug_type r, fix_file r, fix_line r)) (r # new) = map key_of (f # fls)"
    by simp
  then show ?case by blast
qed

lemma fix_loop_raises:
  "apply_fix w fs failure d k = Inl exc \<Longrightarrow> fix_loop w fs d k (failure # rest) acc = Inl exc"
  by simp

lemma fix_agent_raises:
  assumes "status s \<noteq> ''failed''" and "failures s = failure # rest"
    and "apply_fix w (tree w) failure (clone_path s) (openai_key s) = Inl exc"
  shows "fix_agent w s = Inl exc"
  using assms by (simp add: fix_agent_def Let_def)

lemma apply_fix_stat_raises:
  "fs (abs_path_of w d (file_path failure)) = Some (Unstattable exc)
     \<Longrightarrow> apply_fix w fs failure d k = Inl (OSError exc)"
  by (simp add: apply_fix_def resolve_path_def path_exists_def Let_def)

lemma apply_fix_rglob_raises:
  "fs (abs_path_of w d (file_path failure)) = None
     \<Longrightarrow> rglob w d (file_path failure) = Rglob_raises exc
     \<Longrightarrow> apply_fix w fs failure d k = Inl exc"
  by (simp add: apply_fix_def resolve_path_def path_exists_def Let_def)

lemma apply_fix_read_raises:
  "resolve_path w fs d failure = Inr p \<Longrightarrow> fs p = Some (Unreadable exc)
     \<Longrightarrow> apply_fix w fs failure d k = Inl (OSError exc)"
  by (simp add: apply_fix_def path_exists_def read_file_lines_def)

text \<open>
  Claim C8 at its failing inputs. Let the status not be \<^verbatim>\<open>failed\<close> and the failure list
  start with a failure, so that the fix step runs. Whenever the fix step returns, its
  fix list has exactly one record for each failure, the record at each position carrying
  the bug type, file and line of the failure at that position. But the fix step does
  not always return: \<^verbatim>\<open>Path.exists\<close>, \<^verbatim>\<open>Path.rglob\<close> and \<^verbatim>\<open>_read_file_lines\<close> are called
  outside every \<^verbatim>\<open>try\<close> block. When \<^verbatim>\<open>exists\<close> raises on the joined path, when the joined
  path is absent and \<^verbatim>\<open>rglob\<close> raises on the file name, or when the path found exists and
  cannot be opened for reading, the exception leaves the fix step and no fix list is
  produced.
\<close>

theorem fix_agent_raises_outside_try:
  assumes "status s \<noteq> ''failed''" and "failures s = failure # rest"
  shows "(\<forall>s' fs'. fix_agent w s = Inr (s', fs') \<longrightarrow>
            length (fix_records s') = length (failures s)
            \<and> map (\<lambda>r. (fix_bug_type r, fix_file r, fix_line r)) (fix_records s')
                = map (\<lambda>f. (bug_type f, file_path f, line f)) (failures s)
            \<and> failures s' = failures s)
       \<and> (tree w (abs_path_of w (clone_path s) (file_path failure)) = Some (Unstattable exc)
            \<longrightarrow> fix_agent w s = Inl (OSError exc))
       \<and> (tree w (abs_path_of w (clone_path s) (file_path failure)) = None
            \<and> rglob w (clone_path s) (file_path failure) = Rglob_raises err
            \<longrightarrow> fix_agent w s = Inl err)
       \<and> (resolve_path w (tree w) (clone_path s) failure = Inr p
            \<and> tree w p = Some (Unreadable exc)
            \<longrightarrow> fix_agent w s = Inl (OSError exc))"
proof -
  have part: "length (fix_records s') = length (failures s)
            \<and> map (\<lambda>r. (fix_bug_type r, fix_file r, fix_line r)) (fix_records s')
                = map (\<lambda>f. (bug_type f, file_path f, line f)) (failures s)
            \<and> failures s' = failures s"
    if ret: "fix_agent w s = Inr (s', fs')" for s' fs'
  proof -
    from ret assms obtain res where
      l: "fix_loop w (tree w) (clone_path s) (openai_key s) (failures s) [] = Inr (res, fs')"
      and s': "fix_records s' = res" "failures s' = failures s"
      by (auto simp: fix_agent_def Let_def split: sum.splits)
    from fix_loop_Inr [OF l] have
      m: "map (\<lambda>r. (fix_bug_type r, fix_file r, fix_line r)) res = map key_of (failures s)"
      by simp
    then have "length res = length (failures s)" by (rule map_eq_imp_length_eq)
    moreover have "map key_of (failures s) = map (\<lambda>f. (bug_type f, file_path f, line f)) (failures s)"
      by (simp add: key_of_def)
    ultimately show ?thesis using m s' by simp
  qed
  have a: "fix_agent w s = Inl (OSError exc)"
    if "tree w (abs_path_of w (clone_path s) (file_path failure)) = Some (Unstattable exc)"
    by (rule fix_agent_raises [OF assms], rule apply_fix_stat_raises) (rule that)
  have b: "fix_agent w s = Inl err"
    if "tree w (abs_path_of w (clone_path s) (file_path failure)) = None"
      and "rglob w (clone_path s) (file_path failure) = Rglob_raises err"
    by (rule fix_agent_raises [OF assms], rule apply_fix_rglob_raises) (rule that)+
  have c: "fix_agent w s = Inl (OSError exc)"
    if "resolve_path w (tree w) (clone_path s) failure = Inr p"
      and "tree w p = Some (Unreadable exc)"
    by (rule fix_agent_raises [OF assms], rule apply_fix_read_raises) (rule that)+
  from part a b c show ?thesis by blast
qed

lemma fix_agent_fixing_example:
  "\<exists>s' fs'. fix_agent fix_world_example fixing_example = Inr (s', fs')"
  by (simp add: fix_agent_def fixing_example_def initial_state_def fix_world_example_def
      syntax_failure_example_def apply_fix_def resolve_path_def path_exists_def
      read_file_lines_def fix_existing_def rule_fix_def rule_based_fix_def
      write_file_lines_def Let_def)

theorem fix_agent_raises_outside_try_witness:
  "status (finding_in ''pkg'') \<noteq> ''failed''
   \<and> fix_agent broken_tree_world (finding_in (replicate 300 (CHR ''a'')))
       = Inl (OSError ''File name too long'')
   \<and> fix_agent broken_tree_world (finding_in ''**.py'') = Inl (ValueError ''Invalid pattern'')
   \<and> fix_agent broken_tree_world (finding_in ''pkg'') = Inl (OSError ''Is a directory'')
   \<and> (\<exists>s' fs'. fix_agent fix_world_example fixing_example = Inr (s', fs')
         \<and> length (fix_records s') = 2
         \<and> map (\<lambda>r. (fix_bug_type r, fix_file r, fix_line r)) (fix_records s')
             = [(''SYNTAX'', ''a.py'', 1), (''IMPORT'', ''b.py'', 2)])"
proof -
  have st: "status (finding_in f) \<noteq> ''failed''" for f
    by (simp add: finding_in_def initial_state_def)
  have fl: "failures (finding_in f)
      = \<lparr>bug_type = ''LINTING'', file_path = f, line = 1, message = []\<rparr> # []" for f
    by (simp add: finding_in_def)
  have cp: "clone_path (finding_in f) = ''/r''" for f by (simp add: finding_in_def)
  have a: "fix_agent broken_tree_world (finding_in (replicate 300 (CHR ''a'')))
       = Inl (OSError ''File name too long'')"
    using fix_agent_raises_outside_try [OF st [of "replicate 300 (CHR ''a'')"] fl [of "replicate 300 (CHR ''a'')"],
        where w = broken_tree_world and exc = "''File name too long''"]
    by (simp add: cp broken_tree_world_def)
  have b: "fix_agent broken_tree_world (finding_in ''**.py'') = Inl (ValueError ''Invalid pattern'')"
    using fix_agent_raises_outside_try [OF st [of "''**.py''"] fl [of "''**.py''"],
        where w = broken_tree_world and err = "ValueError ''Invalid pattern''"]
    by (simp add: cp broken_tree_world_def)
  have c: "fix_agent broken_tree_world (finding_in ''pkg'') = Inl (OSError ''Is a directory'')"
    using fix_agent_raises_outside_try [OF st [of "''pkg''"] fl [of "''pkg''"],
        where w = broken_tree_world and exc = "''Is a directory''" and p = "''/r/pkg''"]
    by (simp add: cp broken_tree_world_def resolve_path_def path_exists_def)
  have hyps: "status fixing_example \<noteq> ''failed''"
    "failures fixing_example = syntax_failure_example #
       [\<lparr>bug_type = ''IMPORT'', file_path = ''b.py'', line = 2, message = ''unused import''\<rparr>]"
    by (simp_all add: fixing_example_def initial_state_def)
  have fls: "length (failures fixing_example) = 2"
    "map (\<lambda>f. (bug_type f, file_path f, line f)) (failures fixing_example)
       = [(''SYNTAX'', ''a.py'', 1), (''IMPORT'', ''b.py'', 2)]"
    by (simp_all add: fixing_example_def syntax_failure_example_def)
  from fix_agent_fixing_example obtain s' fs' where
    r: "fix_agent fix_world_example fixing_example = Inr (s', fs')" by blast
  with fix_agent_raises_outside_try [OF hyps, where w = fix_world_example]
  have l: "length (fix_records s') = length (failures fixing_example)"
    and m: "map (\<lambda>r. (fix_bug_type r, fix_file r, fix_line r)) (fix_records s')
          = map (\<lambda>f. (bug_type f, file_path f, line f)) (failures fixing_example)"
    by blast+
  from l fls(1) have l2: "length (fix_records s') = 2" by (rule trans)
  from m fls(2) have m2: "map (\<lambda>r. (fix_bug_type r, fix_file r, fix_line r)) (fix_records s')
          = [(''SYNTAX'', ''a.py'', 1), (''IMPORT'', ''b.py'', 2)]" by (rule trans)
  have d: "\<exists>s' fs'. fix_agent fix_world_example fixing_example = Inr (s', fs')
         \<and> length (fix_records s') = 2
         \<and> map (\<lambda>r. (fix_bug_type r, fix_file r, fix_line r)) (fix_records s')
             = [(''SYNTAX'', ''a.py'', 1), (''IMPORT'', ''b.py'', 2)]"
    using r l2 m2 by (intro exI conjI)
  from st [of "''pkg''"] a b c d show ?thesis by (intro conjI)
qed

lemma call_llm_raises:
  "llm w failure a b c = Llm_raises exc \<Longrightarrow>
   call_llm w failure a b c =
     ''---FIX_DESC---rule-based fix applied'' @ [LF] @ ''---FIXED_CODE---# LLM error: '' @ exc"
  by (simp add: call_llm_def)

lemma py_rstrip_nonspace: "\<not> py_isspace a \<Longrightarrow> py_rstrip (a # s) \<noteq> []"
  by (simp add: py_rstrip_def dropWhile_append)

lemma py_strip_llm_error: "py_strip (''# LLM error: '' @ exc) \<noteq> []"
proof -
  have "\<not> py_isspace (CHR ''#'')" by (simp add: py_isspace_def)
  then show ?thesis by (simp add: py_strip_def py_rstrip_nonspace)
qed

lemma parse_llm_error:
  "parse_llm_response
     (''---FIX_DESC---rule-based fix applied'' @ [LF] @ ''---FIXED_CODE---# LLM error: '' @ exc)
   = (''rule-based fix applied'', py_strip (''# LLM error: '' @ exc))"
proof -
  have "py_strip (''rule-based fix applied'' @ [LF]) = ''rule-based fix applied''"
    by (simp add: py_strip_def py_rstrip_def py_isspace_def)
  then show ?thesis by (simp add: parse_llm_response_def)
qed

text \<open>
  Claim C5 at its failing input. Let the failure's file exist and be readable, the
  credential start with \<^verbatim>\<open>sk-\<close>, the call to the completion service raise an exception
  with text \<open>exc\<close>, and the file be writable. Then \<^verbatim>\<open>_apply_fix\<close> does not reach the
  rule-based fallback: it returns from the delegate branch with a record of status
  \<^verbatim>\<open>applied\<close> whose description is \<^verbatim>\<open>rule-based fix applied\<close> and whose patch is the
  non-empty text \<^verbatim>\<open># LLM error: \<close> followed by \<open>exc\<close> (stripped), and this text has replaced
  the lines of the context window in the file.
\<close>

theorem apply_fix_writes_llm_error:
  assumes resolved: "resolve_path w fs clone_dir failure = Inr p"
    and exists: "fs p = Some (File body)"
    and key: "prefix ''sk-'' key"
    and raises: "\<forall>start end_i context. llm w failure start end_i context = Llm_raises exc"
    and writable: "write_error w p = None"
  shows "\<exists>written.
           apply_fix w fs failure clone_dir key =
             Inr (fix_record failure ''rule-based fix applied''
                    (py_strip (''# LLM error: '' @ exc)) ''applied'',
                  fs(p \<mapsto> File written))
         \<and> written =
             concat (py_slice_assign (readlines (universal_newlines body) [])
               (max 0 (line failure - 11))
               (min (int (length (readlines (universal_newlines body) []))) (line failure + 10))
               (splitlines_keepends (py_strip (''# LLM error: '' @ exc)) []))
         \<and> py_strip (''# LLM error: '' @ exc) \<noteq> []"
proof -
  let ?ls = "readlines (universal_newlines body) []"
  from key have k: "key \<noteq> [] \<and> prefix ''sk-'' key" by auto
  from exists have rd: "read_file_lines fs p = Inr ?ls" by (simp add: read_file_lines_def)
  from exists have ex: "path_exists fs p = Inr True" by (simp add: path_exists_def)
  have resp: "call_llm w failure a b c =
     ''---FIX_DESC---rule-based fix applied'' @ [LF] @ ''---FIXED_CODE---# LLM error: '' @ exc"
    for a b c using raises by (simp add: call_llm_raises)
  have "llm_fix w fs failure p ?ls =
      Some (fix_record failure ''rule-based fix applied''
              (py_strip (''# LLM error: '' @ exc)) ''applied'',
            fs(p \<mapsto> File (concat (py_slice_assign ?ls (max 0 (line failure - 11))
               (min (int (length ?ls)) (line failure + 10))
               (splitlines_keepends (py_strip (''# LLM error: '' @ exc)) [])))))"
    unfolding llm_fix_def Let_def resp parse_llm_error
    using writable py_strip_llm_error [of exc] by (simp add: write_file_lines_def)
  with resolved rd ex k py_strip_llm_error [of exc] show ?thesis
    by (simp add: apply_fix_def fix_existing_def)
qed

theorem apply_fix_writes_llm_error_witness:
  "resolve_path fix_world_example (tree fix_world_example) ''/r'' syntax_failure_example
     = Inr ''/r/a.py''
   \<and> tree fix_world_example ''/r/a.py'' = Some (File (''x = 1'' @ [LF] @ ''import os'' @ [LF]))
   \<and> prefix ''sk-'' ''sk-test''
   \<and> apply_fix fix_world_example (tree fix_world_example) syntax_failure_example ''/r'' ''sk-test''
       = Inr (fix_record syntax_failure_example ''rule-based fix applied''
                ''# LLM error: timeout'' ''applied'',
              (tree fix_world_example)(''/r/a.py'' \<mapsto> File ''# LLM error: timeout''))"
  using apply_fix_writes_llm_error [of fix_world_example "tree fix_world_example" "''/r''"
      syntax_failure_example "''/r/a.py''" "''x = 1'' @ [LF] @ ''import os'' @ [LF]"
      "''sk-test''" "''timeout''"]
  by (simp add: fix_world_example_def syntax_failure_example_def resolve_path_def
      path_exists_def py_strip_def py_rstrip_def py_isspace_def py_slice_assign_def
      slice_index_def Let_def)

text \<open>
  On the same input the rule-based fallback, had it been reached, would have rewritten
  the file with its own content and reported \<^verbatim>\<open>apply automated fix\<close>.
\<close>

lemma rule_fix_example:
  "rule_fix fix_world_example (tree fix_world_example) syntax_failure_example ''/r/a.py''
       [''x = 1'' @ [LF], ''import os'' @ [LF]]
     = (fix_record syntax_failure_example ''apply automated fix''
          (''x = 1'' @ [LF] @ ''import os'' @ [LF]) ''applied'',
        (tree fix_world_example)(''/r/a.py'' \<mapsto> File (''x = 1'' @ [LF] @ ''import os'' @ [LF])))"
  by (simp add: rule_fix_def rule_based_fix_def write_file_lines_def fix_world_example_def
      syntax_failure_example_def Let_def)
section \<open>Properties of the graph\<close>

lemma clone_agent_retry [simp]:
  "retry_count (clone_agent r s) = retry_count s" "retry_limit (clone_agent r s) = retry_limit s"
  by (simp_all add: clone_agent_def Let_def split: clone_result.split)

lemma analyze_agent_retry [simp]:
  "retry_count (analyze_agent r s) = retry_count s"
  "retry_limit (analyze_agent r s) = retry_limit s"
  by (simp_all add: analyze_agent_def Let_def split: analyze_result.split)

lemma git_agent_retry [simp]:
  "retry_count (git_agent r s) = retry_count s" "retry_limit (git_agent r s) = retry_limit s"
  by (simp_all add: git_agent_def Let_def split: git_result.split)

lemma cicd_agent_retry [simp]:
  "retry_count (cicd_agent r s) = retry_count s" "retry_limit (cicd_agent r s) = retry_limit s"
  by (simp_all add: cicd_agent_def Let_def split: workflow_lookup.split prod.split sum.split)

lemma score_agent_retry [simp]:
  "retry_count (score_agent s) = retry_count s" "retry_limit (score_agent s) = retry_limit s"
  by (simp_all add: score_agent_def Let_def)

lemma increment_retry_retry [simp]:
  "retry_count (increment_retry s) = retry_count s + 1"
  "retry_limit (increment_retry s) = retry_limit s"
  by (simp_all add: increment_retry_def)

lemma fix_agent_retry:
  assumes "fix_agent w s = Inr (s', fs')"
  shows "retry_count s' = retry_count s" "retry_limit s' = retry_limit s"
  using assms by (auto simp: fix_agent_def Let_def split: if_splits sum.splits prod.splits)

lemma should_retry_analyze:
  "should_retry s \<noteq> ''score'' \<Longrightarrow> retry_count s < retry_limit s"
  by (simp add: should_retry_def split: if_splits)

lemma step_retry:
  assumes "step c c'"
  shows "retry_limit (snd c') = retry_limit (snd c)"
    and "retry_count (snd c) \<le> retry_count (snd c')"
    and "retry_count (snd c') \<le> retry_count (snd c) + 1"
proof -
  obtain n s n' s' where c: "c = (n, s)" "c' = (n', s')" by (cases c, cases c') auto
  from assms c obtain w where ns: "node_step w n s = Inr (n', s')"
    by (auto simp: step_def step_of_def)
  have "retry_limit s' = retry_limit s \<and> retry_count s \<le> retry_count s'
        \<and> retry_count s' \<le> retry_count s + 1"
  proof (cases n)
    case Fix
    with ns obtain fs' where "fix_agent (w_fix w s) s = Inr (s', fs')"
      by (auto split: sum.splits prod.splits)
    then show ?thesis by (simp add: fix_agent_retry)
  next
    case Cicd_monitor
    with ns have "s' = cicd_agent (w_cicd w s) s" by (auto simp: Let_def)
    then show ?thesis by simp
  qed (use ns in auto)
  with c show "retry_limit (snd c') = retry_limit (snd c)"
    and "retry_count (snd c) \<le> retry_count (snd c')"
    and "retry_count (snd c') \<le> retry_count (snd c) + 1" by simp_all
qed

lemma step_within_limit:
  assumes "step c c'" and "within_limit c"
  shows "within_limit c'"
proof -
  obtain n s n' s' where c: "c = (n, s)" "c' = (n', s')" by (cases c, cases c') auto
  from assms c obtain w where ns: "node_step w n s = Inr (n', s')"
    by (auto simp: step_def step_of_def)
  from assms(2) c have le: "retry_count s \<le> retry_limit s"
    and lt: "n = Increment_retry \<Longrightarrow> retry_count s < retry_limit s"
    by (simp_all add: within_limit_def)
  have "retry_count s' \<le> retry_limit s' \<and> (n' = Increment_retry \<longrightarrow> retry_count s' < retry_limit s')"
  proof (cases n)
    case Fix
    with ns obtain fs' where "fix_agent (w_fix w s) s = Inr (s', fs')" and "n' = Git"
      by (auto split: sum.splits prod.splits)
    with le show ?thesis by (simp add: fix_agent_retry)
  next
    case Cicd_monitor
    let ?t = "cicd_agent (w_cicd w s) s"
    from Cicd_monitor ns have eq: "s' = ?t" "n' = retry_edge (should_retry ?t)"
      by (auto simp: Let_def)
    show ?thesis
    proof (cases "should_retry ?t = ''score''")
      case True
      with eq le show ?thesis by (simp add: retry_edge_def)
    next
      case False
      then have "retry_count ?t < retry_limit ?t" by (rule should_retry_analyze)
      with eq show ?thesis by simp
    qed
  next
    case Increment_retry
    with ns lt show ?thesis by auto
  qed (use ns le in auto)
  with c show ?thesis by (simp add: within_limit_def)
qed

lemma reachable_within_limit:
  assumes "step\<^sup>*\<^sup>* c c'" and "within_limit c"
  shows "within_limit c'"
  using assms by (induction rule: rtranclp_induct) (auto intro: step_within_limit)

lemma clone_agent_frame [simp]:
  "failures (clone_agent r s) = failures s" "fix_records (clone_agent r s) = fix_records s"
  "total_tests (clone_agent r s) = total_tests s" "tests_passed (clone_agent r s) = tests_passed s"
  "commit_sha (clone_agent r s) = commit_sha s"
  "duration_seconds (clone_agent r s) = duration_seconds s"
  by (simp_all add: clone_agent_def Let_def split: clone_result.split)

lemma clone_agent_status:
  "status (clone_agent (Clone_raises exc) s) = ''failed''"
  "clone_path (clone_agent (Clone_raises exc) s) = []"
  "error_message (clone_agent (Clone_raises exc) s) = Some exc"
  "(\<forall>exc. r \<noteq> Clone_raises exc) \<Longrightarrow> status (clone_agent r s) = status s"
  by (simp_all add: clone_agent_def Let_def split: clone_result.split)

lemma analyze_agent_status [simp]: "status (analyze_agent r s) = status s"
  by (simp add: analyze_agent_def Let_def split: analyze_result.split)

lemma analyze_agent_failed: "status s = ''failed'' \<Longrightarrow> analyze_agent r s = s"
  by (simp add: analyze_agent_def)

lemma fix_agent_status:
  "fix_agent w s = Inr (s', fs') \<Longrightarrow> status s' = status s"
  by (auto simp: fix_agent_def Let_def split: if_splits sum.splits prod.splits)

lemma fix_agent_skips:
  "failures s = [] \<or> status s = ''failed'' \<Longrightarrow> fix_agent w s = Inr (s, tree w)"
  by (simp add: fix_agent_def)

lemma git_agent_status [simp]:
  "status (git_agent r s) = status s" "failures (git_agent r s) = failures s"
  by (simp_all add: git_agent_def Let_def split: git_result.split)

lemma git_agent_failed: "status s = ''failed'' \<Longrightarrow> git_agent r s = s"
  by (simp add: git_agent_def)

lemma cicd_agent_frame [simp]:
  "status (cicd_agent r s) = status s" "failures (cicd_agent r s) = failures s"
  "fix_records (cicd_agent r s) = fix_records s" "total_tests (cicd_agent r s) = total_tests s"
  "tests_passed (cicd_agent r s) = tests_passed s"
  "duration_seconds (cicd_agent r s) = duration_seconds s"
  "error_message (cicd_agent r s) = error_message s"
  by (simp_all add: cicd_agent_def Let_def split: workflow_lookup.split prod.split sum.split)

lemma cicd_agent_simulated:
  "github_token s = [] \<or> commit_sha s = [] \<Longrightarrow>
   cicd_agent r s =
     s\<lparr>cicd_status := (if 0 < applied_fixes (fix_records s) \<and> 0 < length (failures s)
                         then ''success'' else ''failure''),
       cicd_timeline := cicd_timeline s @
         [timeline_event ''cicd_simulated''
            (if 0 < applied_fixes (fix_records s) \<and> 0 < length (failures s)
             then ''success'' else ''failure'')]\<rparr>"
  by (simp add: cicd_agent_def Let_def)

lemma increment_retry_frame [simp]:
  "status (increment_retry s) = status s" "failures (increment_retry s) = failures s"
  by (simp_all add: increment_retry_def)

lemma score_agent_frame [simp]:
  "failures (score_agent s) = failures s" "error_message (score_agent s) = error_message s"
  by (simp_all add: score_agent_def Let_def)

lemma step_of_step: "(step_of w)\<^sup>*\<^sup>* c c' \<Longrightarrow> step\<^sup>*\<^sup>* c c'"
proof (induction rule: rtranclp_induct)
  case base
  show ?case by simp
next
  case (step y z)
  from step.hyps(2) have "step y z" by (auto simp: step_def)
  with step.IH show ?case by simp
qed

lemma reachable_retry_limit:
  "step\<^sup>*\<^sup>* c c' \<Longrightarrow> retry_limit (snd c') = retry_limit (snd c)"
  by (induction rule: rtranclp_induct) (simp_all add: step_retry(1))

lemma reachable_retry_count_mono:
  "step\<^sup>*\<^sup>* c c' \<Longrightarrow> retry_count (snd c) \<le> retry_count (snd c')"
proof (induction rule: rtranclp_induct)
  case base
  show ?case by simp
next
  case (step y z)
  from step.hyps(2) have "retry_count (snd y) \<le> retry_count (snd z)" by (rule step_retry(2))
  with step.IH show ?case by simp
qed

lemma initial_state_fields:
  "status (initial_state url team leader key token limit uuid started) = ''running''"
  "retry_count (initial_state url team leader key token limit uuid started) = 0"
  "retry_limit (initial_state url team leader key token limit uuid started) = limit"
  "failures (initial_state url team leader key token limit uuid started) = []"
  "fix_records (initial_state url team leader key token limit uuid started) = []"
  "commit_sha (initial_state url team leader key token limit uuid started) = []"
  "total_tests (initial_state url team leader key token limit uuid started) = 0"
  "tests_passed (initial_state url team leader key token limit uuid started) = 0"
  "duration_seconds (initial_state url team leader key token limit uuid started) = 0"
  "cicd_status (initial_state url team leader key token limit uuid started) = ''pending''"
  by (simp_all add: initial_state_def)


lemma run_graph_END [simp]: "run_graph w budget END s = Inr s"
  by (cases budget) simp_all

lemma run_graph_step_of:
  "step_of w (n, s) (n', s') \<Longrightarrow> run_graph w (Suc budget) n s = run_graph w budget n' s'"
  by (simp add: step_of_def)

lemma run_graph_steps:
  "(step_of w ^^ k) c c' \<Longrightarrow>
     run_graph w (k + budget) (fst c) (snd c) = run_graph w budget (fst c') (snd c')"
proof (induction k arbitrary: c)
  case 0
  then show ?case by simp
next
  case (Suc k)
  from relpowp_Suc_D2 [OF Suc.prems] obtain y where y: "step_of w c y" "(step_of w ^^ k) y c'"
    by blast
  from y(1) have "run_graph w (Suc (k + budget)) (fst c) (snd c)
      = run_graph w (k + budget) (fst y) (snd y)"
    using run_graph_step_of [of w "fst c" "snd c" "fst y" "snd y"] by simp
  with Suc.IH [OF y(2)] show ?case by simp
qed

lemma run_graph_out_of_budget:
  "(step_of w ^^ k) c c' \<Longrightarrow> budget < k \<Longrightarrow>
     run_graph w budget (fst c) (snd c) = Inl GraphRecursionError"
proof (induction budget arbitrary: k c)
  case 0
  then obtain j where "k = Suc j" by (cases k) auto
  with 0 have "(step_of w ^^ Suc j) c c'" by simp
  from relpowp_Suc_D2 [OF this] obtain y where "step_of w c y" by blast
  then have "fst c \<noteq> END" by (simp add: step_of_def)
  then show ?case by simp
next
  case (Suc budget)
  then obtain j where k: "k = Suc j" by (cases k) auto
  with Suc.prems have "(step_of w ^^ Suc j) c c'" by simp
  from relpowp_Suc_D2 [OF this] obtain y where y: "step_of w c y" "(step_of w ^^ j) y c'"
    by blast
  from y(1) have "run_graph w (Suc budget) (fst c) (snd c) = run_graph w budget (fst y) (snd y)"
    using run_graph_step_of [of w "fst c" "snd c" "fst y" "snd y"] by simp
  moreover from Suc.prems k have "budget < j" by simp
  ultimately show ?case using Suc.IH [OF y(2)] by simp
qed

lemma step_of_Score: "step_of w (Score, s) (END, score_agent s)"
  by (simp add: step_of_def)

lemma relpowp_step_of_rtranclp:
  "(step_of w ^^ k) c c' \<Longrightarrow> (step_of w)\<^sup>*\<^sup>* c c'"
  by (rule relpowp_imp_rtranclp)

lemma relpowp_append:
  "(R ^^ i) x y \<Longrightarrow> (R ^^ j) y z \<Longrightarrow> (R ^^ (i + j)) x z"
  by (auto simp: relpowp_add)


lemma one_pass:
  assumes fix_ok: "\<forall>s exc. (step_of w)\<^sup>*\<^sup>* c0 (Fix, s) \<longrightarrow> fix_agent (w_fix w s) s \<noteq> Inl exc"
    and verify: "\<forall>s. (step_of w)\<^sup>*\<^sup>* c0 (Cicd_monitor, s) \<longrightarrow>
                  cicd_status (cicd_agent (w_cicd w s) s) \<noteq> ''success''"
    and reach: "(step_of w)\<^sup>*\<^sup>* c0 (Analyze, s)"
  shows "\<exists>s'. (step_of w ^^ 4) (Analyze, s) (retry_edge (should_retry s'), s')
              \<and> status s' = status s \<and> retry_count s' = retry_count s
              \<and> retry_limit s' = retry_limit s \<and> cicd_status s' \<noteq> ''success''"
proof -
  let ?s1 = "analyze_agent (w_analyze w s) s"
  have st1: "step_of w (Analyze, s) (Fix, ?s1)" by (simp add: step_of_def)
  with reach have r1: "(step_of w)\<^sup>*\<^sup>* c0 (Fix, ?s1)" by (rule rtranclp.rtrancl_into_rtrancl)
  with fix_ok have "\<forall>exc. fix_agent (w_fix w ?s1) ?s1 \<noteq> Inl exc" by blast
  then obtain s2 fs where f: "fix_agent (w_fix w ?s1) ?s1 = Inr (s2, fs)"
    by (cases "fix_agent (w_fix w ?s1) ?s1") auto
  then have st2: "step_of w (Fix, ?s1) (Git, s2)" by (simp add: step_of_def)
  with r1 have r2: "(step_of w)\<^sup>*\<^sup>* c0 (Git, s2)" by (rule rtranclp.rtrancl_into_rtrancl)
  let ?s3 = "git_agent (w_git w s2) s2"
  have st3: "step_of w (Git, s2) (Cicd_monitor, ?s3)" by (simp add: step_of_def)
  with r2 have r3: "(step_of w)\<^sup>*\<^sup>* c0 (Cicd_monitor, ?s3)"
    by (rule rtranclp.rtrancl_into_rtrancl)
  let ?s4 = "cicd_agent (w_cicd w ?s3) ?s3"
  from verify r3 have v: "cicd_status ?s4 \<noteq> ''success''" by blast
  have st4: "step_of w (Cicd_monitor, ?s3) (retry_edge (should_retry ?s4), ?s4)"
    by (simp add: step_of_def Let_def)
  have "(step_of w ^^ Suc (Suc (Suc (Suc 0)))) (Analyze, s) (retry_edge (should_retry ?s4), ?s4)"
    using st1 st2 st3 st4 by (meson relpowp_Suc_I relpowp_0_I)
  then have p: "(step_of w ^^ 4) (Analyze, s) (retry_edge (should_retry ?s4), ?s4)"
    by (simp only: numeral_eq_Suc pred_numeral_simps Num.BitM.simps)
  have "status ?s4 = status s" "retry_count ?s4 = retry_count s" "retry_limit ?s4 = retry_limit s"
    by (simp_all add: fix_agent_status [OF f] fix_agent_retry [OF f])
  with p v show ?thesis by blast
qed

lemma retries_exhaust:
  assumes fix_ok: "\<forall>s exc. (step_of w)\<^sup>*\<^sup>* c0 (Fix, s) \<longrightarrow> fix_agent (w_fix w s) s \<noteq> Inl exc"
    and verify: "\<forall>s. (step_of w)\<^sup>*\<^sup>* c0 (Cicd_monitor, s) \<longrightarrow>
                  cicd_status (cicd_agent (w_cicd w s) s) \<noteq> ''success''"
  shows "(step_of w)\<^sup>*\<^sup>* c0 (Analyze, s) \<Longrightarrow> status s \<noteq> ''failed''
         \<Longrightarrow> retry_count s \<le> retry_limit s
         \<Longrightarrow> \<exists>s'. (step_of w ^^ (4 + 5 * nat (retry_limit s - retry_count s)))
                    (Analyze, s) (Score, s')
                  \<and> retry_count s' = retry_limit s' \<and> retry_limit s' = retry_limit s"
proof (induction "nat (retry_limit s - retry_count s)" arbitrary: s rule: less_induct)
  case less
  from one_pass [OF fix_ok verify less.prems(1)] obtain s4 where
    p4: "(step_of w ^^ 4) (Analyze, s) (retry_edge (should_retry s4), s4)"
    and fr: "status s4 = status s" "retry_count s4 = retry_count s"
      "retry_limit s4 = retry_limit s" "cicd_status s4 \<noteq> ''success''"
    by blast
  show ?case
  proof (cases "retry_count s = retry_limit s")
    case True
    with fr have "should_retry s4 = ''score''" by (simp add: should_retry_def)
    with p4 have "(step_of w ^^ 4) (Analyze, s) (Score, s4)" by (simp add: retry_edge_def)
    with True fr show ?thesis by auto
  next
    case False
    with less.prems(3) have lt: "retry_count s < retry_limit s" by simp
    with fr less.prems(2) have "should_retry s4 = ''analyze''" by (simp add: should_retry_def)
    with p4 have p5: "(step_of w ^^ 4) (Analyze, s) (Increment_retry, s4)"
      by (simp add: retry_edge_def)
    let ?s5 = "increment_retry s4"
    have "step_of w (Increment_retry, s4) (Analyze, ?s5)" by (simp add: step_of_def)
    with p5 have p6: "(step_of w ^^ Suc 4) (Analyze, s) (Analyze, ?s5)" by (rule relpowp_Suc_I)
    then have "(step_of w)\<^sup>*\<^sup>* (Analyze, s) (Analyze, ?s5)" by (rule relpowp_imp_rtranclp)
    with less.prems(1) have r6: "(step_of w)\<^sup>*\<^sup>* c0 (Analyze, ?s5)" by (rule rtranclp_trans)
    have m: "nat (retry_limit ?s5 - retry_count ?s5) < nat (retry_limit s - retry_count s)"
      using lt fr by simp
    have "status ?s5 \<noteq> ''failed''" "retry_count ?s5 \<le> retry_limit ?s5"
      using lt fr less.prems(2) by simp_all
    from less.hyps [OF m r6 this] obtain s' where
      rest: "(step_of w ^^ (4 + 5 * nat (retry_limit ?s5 - retry_count ?s5))) (Analyze, ?s5) (Score, s')"
      and e: "retry_count s' = retry_limit s'" "retry_limit s' = retry_limit ?s5"
      by blast
    have eq: "Suc 4 + (4 + 5 * nat (retry_limit ?s5 - retry_count ?s5))
        = 4 + 5 * nat (retry_limit s - retry_count s)"
      using lt fr by (simp add: nat_diff_distrib)
    from relpowp_append [OF p6 rest]
    have "(step_of w ^^ (4 + 5 * nat (retry_limit s - retry_count s)))
            (Analyze, s) (Score, s')" by (simp only: eq)
    with e fr show ?thesis by auto
  qed
qed

lemma pipeline_path:
  assumes s0: "s0 = initial_state url team leader key token limit uuid started"
    and limit: "0 \<le> limit"
    and clone_ok: "\<forall>exc. w_clone w s0 \<noteq> Clone_raises exc"
    and fix_ok: "\<forall>s exc. (step_of w)\<^sup>*\<^sup>* (Clone, s0) (Fix, s) \<longrightarrow> fix_agent (w_fix w s) s \<noteq> Inl exc"
    and verify: "\<forall>s. (step_of w)\<^sup>*\<^sup>* (Clone, s0) (Cicd_monitor, s) \<longrightarrow>
                  cicd_status (cicd_agent (w_cicd w s) s) \<noteq> ''success''"
  shows "\<exists>s. (step_of w ^^ (5 * nat limit + 5)) (Clone, s0) (Score, s)
             \<and> (step_of w ^^ (5 * nat limit + 6)) (Clone, s0) (END, score_agent s)
             \<and> retry_count s = limit \<and> retry_limit s = limit"
proof -
  let ?s1 = "clone_agent (w_clone w s0) s0"
  have i: "status s0 = ''running''" "retry_count s0 = 0" "retry_limit s0 = limit"
    by (simp_all add: s0 initial_state_def)
  have st: "step_of w (Clone, s0) (Analyze, ?s1)" by (simp add: step_of_def)
  then have r1: "(step_of w)\<^sup>*\<^sup>* (Clone, s0) (Analyze, ?s1)" by (rule r_into_rtranclp)
  from st have p1: "(step_of w ^^ 1) (Clone, s0) (Analyze, ?s1)" by auto
  have "status ?s1 \<noteq> ''failed''" "retry_count ?s1 \<le> retry_limit ?s1"
    using i limit clone_ok by (simp_all add: clone_agent_status(4))
  from retries_exhaust [OF fix_ok verify r1 this] obtain s where
    p: "(step_of w ^^ (4 + 5 * nat (retry_limit ?s1 - retry_count ?s1))) (Analyze, ?s1) (Score, s)"
    and c: "retry_count s = retry_limit s" "retry_limit s = retry_limit ?s1"
    by blast
  from p i have "(step_of w ^^ (4 + 5 * nat limit)) (Analyze, ?s1) (Score, s)" by simp
  have eq1: "1 + (4 + 5 * nat limit) = 5 * nat limit + 5" by simp
  from relpowp_append [OF p1 \<open>(step_of w ^^ (4 + 5 * nat limit)) (Analyze, ?s1) (Score, s)\<close>]
  have a: "(step_of w ^^ (5 * nat limit + 5)) (Clone, s0) (Score, s)"
    by (simp only: eq1)
  have eq: "Suc (5 * nat limit + 5) = 5 * nat limit + 6" by simp
  from relpowp_Suc_I [OF a step_of_Score]
  have b: "(step_of w ^^ (5 * nat limit + 6)) (Clone, s0) (END, score_agent s)"
    by (simp only: eq)
  from a b c i show ?thesis by auto
qed

lemma pipeline_budget:
  assumes s0: "s0 = initial_state url team leader key token limit uuid started"
    and limit: "0 \<le> limit"
    and clone_ok: "\<forall>exc. w_clone w s0 \<noteq> Clone_raises exc"
    and fix_ok: "\<forall>s exc. (step_of w)\<^sup>*\<^sup>* (Clone, s0) (Fix, s) \<longrightarrow> fix_agent (w_fix w s) s \<noteq> Inl exc"
    and verify: "\<forall>s. (step_of w)\<^sup>*\<^sup>* (Clone, s0) (Cicd_monitor, s) \<longrightarrow>
                  cicd_status (cicd_agent (w_cicd w s) s) \<noteq> ''success''"
  shows "5 * nat limit + 6 \<le> budget \<Longrightarrow>
           \<exists>s. (step_of w)\<^sup>*\<^sup>* (Clone, s0) (Score, s) \<and> retry_count s = limit
               \<and> retry_limit s = limit \<and> run_graph w budget Clone s0 = Inr (score_agent s)"
    and "budget < 5 * nat limit + 6 \<Longrightarrow> run_graph w budget Clone s0 = Inl GraphRecursionError"
proof -
  from pipeline_path [OF assms] obtain s where
    a: "(step_of w ^^ (5 * nat limit + 5)) (Clone, s0) (Score, s)"
    and b: "(step_of w ^^ (5 * nat limit + 6)) (Clone, s0) (END, score_agent s)"
    and c: "retry_count s = limit" "retry_limit s = limit"
    by blast
  {
    assume le: "5 * nat limit + 6 \<le> budget"
    from run_graph_steps [OF b, of "budget - (5 * nat limit + 6)"] le
    have "run_graph w budget Clone s0 = Inr (score_agent s)" by simp
    with relpowp_imp_rtranclp [OF a] c
    show "\<exists>s. (step_of w)\<^sup>*\<^sup>* (Clone, s0) (Score, s) \<and> retry_count s = limit
               \<and> retry_limit s = limit \<and> run_graph w budget Clone s0 = Inr (score_agent s)"
      by blast
  }
  {
    assume "budget < 5 * nat limit + 6"
    from run_graph_out_of_budget [OF b this]
    show "run_graph w budget Clone s0 = Inl GraphRecursionError" by simp
  }
qed


lemma clone_failure_path:
  assumes s0: "s0 = initial_state url team leader key token limit uuid started"
    and fails: "w_clone w s0 = Clone_raises exc"
    and s1: "s1 = clone_agent (Clone_raises exc) s0"
    and s4: "s4 = s1\<lparr>cicd_status := ''failure'',
                      cicd_timeline := cicd_timeline s1 @ [timeline_event ''cicd_simulated'' ''failure'']\<rparr>"
  shows "status s1 = ''failed''"
    and "analyze_agent (w_analyze w s1) s1 = s1"
    and "fix_agent (w_fix w s1) s1 = Inr (s1, tree (w_fix w s1))"
    and "git_agent (w_git w s1) s1 = s1"
    and "cicd_agent (w_cicd w s1) s1 = s4"
    and "(step_of w ^^ 5) (Clone, s0) (Score, s4)"
    and "run_graph w recursion_limit Clone s0 = Inr (score_agent s4)"
proof -
  show st: "status s1 = ''failed''" by (simp add: s1 clone_agent_status)
  then show a: "analyze_agent (w_analyze w s1) s1 = s1" by (rule analyze_agent_failed)
  from st show f: "fix_agent (w_fix w s1) s1 = Inr (s1, tree (w_fix w s1))"
    by (simp add: fix_agent_skips)
  from st show g: "git_agent (w_git w s1) s1 = s1" by (rule git_agent_failed)
  have "commit_sha s1 = []" "applied_fixes (fix_records s1) = 0"
    by (simp_all add: s1 s0 initial_state_fields applied_fixes_def)
  then show c: "cicd_agent (w_cicd w s1) s1 = s4"
    by (simp add: cicd_agent_simulated s4)
  have "status s4 = ''failed''" using st by (simp add: s4)
  then have e: "should_retry s4 = ''score''" by (simp add: should_retry_def)
  have "step_of w (Clone, s0) (Analyze, s1)" by (simp add: step_of_def fails s1)
  moreover have "step_of w (Analyze, s1) (Fix, s1)" by (simp add: step_of_def a)
  moreover have "step_of w (Fix, s1) (Git, s1)" by (simp add: step_of_def f)
  moreover have "step_of w (Git, s1) (Cicd_monitor, s1)" by (simp add: step_of_def g)
  moreover have "step_of w (Cicd_monitor, s1) (Score, s4)"
    by (simp add: step_of_def c e retry_edge_def)
  ultimately have "(step_of w ^^ Suc (Suc (Suc (Suc (Suc 0))))) (Clone, s0) (Score, s4)"
    by (meson relpowp_Suc_I relpowp_0_I)
  then show r: "(step_of w ^^ 5) (Clone, s0) (Score, s4)"
    by (simp only: numeral_eq_Suc pred_numeral_simps Num.BitM.simps)
  from relpowp_Suc_I [OF r step_of_Score]
  have "(step_of w ^^ 6) (Clone, s0) (END, score_agent s4)" by simp
  from run_graph_steps [OF this, of 19]
  show "run_graph w recursion_limit Clone s0 = Inr (score_agent s4)"
    by (simp add: recursion_limit_def)
qed

lemma clone_failure_score:
  assumes s0: "s0 = initial_state url team leader key token limit uuid started"
    and s1: "s1 = clone_agent (Clone_raises exc) s0"
    and s4: "s4 = s1\<lparr>cicd_status := ''failure'',
                      cicd_timeline := cicd_timeline s1 @ [timeline_event ''cicd_simulated'' ''failure'']\<rparr>"
  shows "total_score_of s4 = 110"
proof -
  have f: "total_tests s4 = 0" "failures s4 = []" "cicd_status s4 = ''failure''"
    "duration_seconds s4 = 0" "retry_count s4 = 0"
    by (simp_all add: s4 s1 s0 initial_state_fields)
  have ts: "tests_score_of s4 = 40" using f by (simp add: tests_score_of_def)
  have fq: "fix_quality_score_of s4 = 40" using f by (simp add: fix_quality_score_of_def)
  have ci: "ci_bonus_of s4 = 20" using f by (simp add: ci_bonus_of_def)
  have sb: "speed_bonus_of s4 = 10" using f by (simp add: speed_bonus_of_def)
  have ep: "efficiency_penalty_of s4 = 0" using f by (simp add: efficiency_penalty_of_def)
  have bs: "base_score_of s4 = 100" by (simp add: base_score_of_def ts fq ci)
  show ?thesis by (simp add: total_score_of_def bs sb ep)
qed

text \<open>
  Claim C3 at its failing input. When the clone fails, the status is set to \<^verbatim>\<open>failed\<close>,
  and the analyze, fix and git steps return the state as it is. The verify step has no
  such guard: it records a simulated CI failure. The score step then finds no test and
  no failure, computes 40 + 40 + 20 + 10 = 110, and overwrites the status: the final
  state of the run reports \<^verbatim>\<open>success\<close>, not \<^verbatim>\<open>failed\<close>.
\<close>

theorem clone_failure_reported_as_success:
  assumes "w_clone w (initial_state url team leader key token limit uuid started) = Clone_raises exc"
  shows "(let s0 = initial_state url team leader key token limit uuid started;
              s1 = clone_agent (Clone_raises exc) s0
          in status s1 = ''failed''
           \<and> analyze_agent (w_analyze w s1) s1 = s1
           \<and> fix_agent (w_fix w s1) s1 = Inr (s1, tree (w_fix w s1))
           \<and> git_agent (w_git w s1) s1 = s1
           \<and> cicd_agent (w_cicd w s1) s1 =
               s1\<lparr>cicd_status := ''failure'',
                  cicd_timeline := cicd_timeline s1 @ [timeline_event ''cicd_simulated'' ''failure'']\<rparr>
           \<and> (\<exists>final. run_pipeline w url team leader key token limit uuid started finished elapsed
                          = Inr final
                 \<and> status final = ''success'' \<and> total_score (score final) = 110
                 \<and> error_message final = Some exc))"
proof -
  define s0 where "s0 = initial_state url team leader key token limit uuid started"
  define s1 where "s1 = clone_agent (Clone_raises exc) s0"
  define s4 where "s4 = s1\<lparr>cicd_status := ''failure'',
      cicd_timeline := cicd_timeline s1 @ [timeline_event ''cicd_simulated'' ''failure'']\<rparr>"
  from assms have fails: "w_clone w s0 = Clone_raises exc" by (simp add: s0_def)
  note p = clone_failure_path [OF s0_def fails s1_def s4_def]
  have t: "total_score_of s4 = 110" by (rule clone_failure_score [OF s0_def s1_def s4_def])
  have e: "error_message s4 = Some exc" by (simp add: s4_def s1_def clone_agent_status)
  let ?final = "(score_agent s4)\<lparr>finished_at := finished, duration_seconds := py_round elapsed 2\<rparr>"
  from p(7) have "run_pipeline w url team leader key token limit uuid started finished elapsed
      = Inr ?final"
    by (simp add: run_pipeline_def s0_def)
  moreover have "status ?final = ''success''" using t by (simp add: status_of_score_agent)
  moreover have "total_score (score ?final) = 110" using t by (simp add: score_of_score_agent)
  moreover have "error_message ?final = Some exc" using e by simp
  ultimately have "\<exists>final. run_pipeline w url team leader key token limit uuid started finished elapsed
                          = Inr final
                 \<and> status final = ''success'' \<and> total_score (score final) = 110
                 \<and> error_message final = Some exc"
    by blast
  with p(1-5) show ?thesis
    unfolding Let_def s0_def [symmetric] s1_def [symmetric] s4_def [symmetric] by blast
qed

theorem clone_failure_reported_as_success_witness:
  "w_clone failing_clone_world (initial_state ''https://example.org/r.git'' ''T'' ''L'' [] [] 5 ''id'' ''t0'')
     = Clone_raises ''repository not found''
   \<and> (\<exists>final. run_pipeline failing_clone_world ''https://example.org/r.git'' ''T'' ''L'' [] [] 5
                  ''id'' ''t0'' ''t1'' 2 = Inr final
         \<and> status final = ''success'' \<and> total_score (score final) = 110
         \<and> error_message final = Some ''repository not found'')"
proof -
  have f: "w_clone failing_clone_world
      (initial_state ''https://example.org/r.git'' ''T'' ''L'' [] [] 5 ''id'' ''t0'')
     = Clone_raises ''repository not found''"
    by (simp add: failing_clone_world_def)
  from clone_failure_reported_as_success [OF f, of "''t1''" 2]
  have "\<exists>final. run_pipeline failing_clone_world ''https://example.org/r.git'' ''T'' ''L'' [] [] 5
                  ''id'' ''t0'' ''t1'' 2 = Inr final
         \<and> status final = ''success'' \<and> total_score (score final) = 110
         \<and> error_message final = Some ''repository not found''"
    unfolding Let_def by blast
  with f show ?thesis by (intro conjI)
qed


lemma failing_ci_world_no_failures:
  assumes "(step_of failing_ci_world)\<^sup>*\<^sup>* c c'" and "failures (snd c) = []"
  shows "failures (snd c') = []"
  using assms
proof (induction rule: rtranclp_induct)
  case base
  then show ?case by simp
next
  case (step y z)
  obtain n s n' s' where c: "y = (n, s)" "z = (n', s')" by (cases y, cases z) auto
  from step.hyps(2) c have ns: "node_step failing_ci_world n s = Inr (n', s')"
    by (simp add: step_of_def)
  from step c have e: "failures s = []" by simp
  have "failures s' = []"
  proof (cases n)
    case Analyze
    with ns e show ?thesis
      by (auto simp: failing_ci_world_def failing_clone_world_def analyze_agent_def
          deduplicate_def Let_def)
  next
    case Fix
    with ns e show ?thesis by (auto simp: fix_agent_skips)
  next
    case Cicd_monitor
    with ns e show ?thesis by (auto simp: Let_def)
  qed (use ns e in auto)
  with c show ?case by simp
qed

lemma cicd_agent_no_failures:
  "failures s = [] \<Longrightarrow> \<not> url_parses r \<Longrightarrow> cicd_status (cicd_agent r s) \<noteq> ''success''"
  by (simp add: cicd_agent_def Let_def)


lemma failing_ci_world_hyps:
  fixes limit :: int
  defines "s0 \<equiv> initial_state [] [] [] [] [] limit [] []"
  shows "\<forall>exc. w_clone failing_ci_world s0 \<noteq> Clone_raises exc"
    and "\<forall>s exc. (step_of failing_ci_world)\<^sup>*\<^sup>* (Clone, s0) (Fix, s) \<longrightarrow>
                    fix_agent (w_fix failing_ci_world s) s \<noteq> Inl exc"
    and "\<forall>s. (step_of failing_ci_world)\<^sup>*\<^sup>* (Clone, s0) (Cicd_monitor, s) \<longrightarrow>
                    cicd_status (cicd_agent (w_cicd failing_ci_world s) s) \<noteq> ''success''"
proof -
  show "\<forall>exc. w_clone failing_ci_world s0 \<noteq> Clone_raises exc"
    by (simp add: failing_ci_world_def)
  have nf: "failures s = []" if "(step_of failing_ci_world)\<^sup>*\<^sup>* (Clone, s0) (n, s)" for n s
    using failing_ci_world_no_failures [OF that] by (simp add: s0_def initial_state_fields)
  show "\<forall>s exc. (step_of failing_ci_world)\<^sup>*\<^sup>* (Clone, s0) (Fix, s) \<longrightarrow>
                    fix_agent (w_fix failing_ci_world s) s \<noteq> Inl exc"
    using nf by (auto simp: fix_agent_skips)
  show "\<forall>s. (step_of failing_ci_world)\<^sup>*\<^sup>* (Clone, s0) (Cicd_monitor, s) \<longrightarrow>
                    cicd_status (cicd_agent (w_cicd failing_ci_world s) s) \<noteq> ''success''"
  proof (intro allI impI)
    fix s assume "(step_of failing_ci_world)\<^sup>*\<^sup>* (Clone, s0) (Cicd_monitor, s)"
    then have "failures s = []" by (rule nf)
    then show "cicd_status (cicd_agent (w_cicd failing_ci_world s) s) \<noteq> ''success''"
      by (rule cicd_agent_no_failures) (simp add: failing_ci_world_def failing_clone_world_def)
  qed
qed

text \<open>
  Claim C6 at its failing input. Across every step of the pipeline the retry count does
  not decrease and the retry limit does not change, and from an initial state with a
  retry limit that is not negative every reachable state has a retry count between 0
  and the retry limit. But a run whose clone succeeds, whose fix step never raises and
  whose verify step reports no success in any cycle needs \<open>5 * limit + 6\<close> node
  executions to end. It reaches the score step with the retry count equal to the retry
  limit only if the budget of \<^verbatim>\<open>graph.invoke\<close> allows that many; with a smaller budget
  the run raises \<^verbatim>\<open>GraphRecursionError\<close> and never reaches the score step.
  \<^verbatim>\<open>run_pipeline\<close> runs with the budget 25: it ends in the score step for a retry limit
  of at most 3 and raises for every retry limit from 4 on, the default 5 included.
\<close>

theorem retry_loop_exceeds_recursion_limit:
  "(step c c' \<longrightarrow>
      retry_count (snd c) \<le> retry_count (snd c') \<and> retry_limit (snd c') = retry_limit (snd c))
   \<and> (let s0 = initial_state url team leader key token limit uuid started in
        0 \<le> limit \<longrightarrow>
          (step\<^sup>*\<^sup>* (Clone, s0) d \<longrightarrow>
             0 \<le> retry_count (snd d) \<and> retry_count (snd d) \<le> retry_limit (snd d)
             \<and> retry_limit (snd d) = limit)
          \<and> ((\<forall>exc. w_clone w s0 \<noteq> Clone_raises exc)
              \<and> (\<forall>s exc. (step_of w)\<^sup>*\<^sup>* (Clone, s0) (Fix, s) \<longrightarrow>
                    fix_agent (w_fix w s) s \<noteq> Inl exc)
              \<and> (\<forall>s. (step_of w)\<^sup>*\<^sup>* (Clone, s0) (Cicd_monitor, s) \<longrightarrow>
                    cicd_status (cicd_agent (w_cicd w s) s) \<noteq> ''success'')
              \<longrightarrow>
                (5 * nat limit + 6 \<le> budget \<longrightarrow>
                   (\<exists>s. (step_of w)\<^sup>*\<^sup>* (Clone, s0) (Score, s)
                        \<and> retry_count s = limit \<and> retry_limit s = limit
                        \<and> run_graph w budget Clone s0 = Inr (score_agent s)))
                \<and> (budget < 5 * nat limit + 6 \<longrightarrow>
                     run_graph w budget Clone s0 = Inl GraphRecursionError)
                \<and> (limit \<le> 3 \<longrightarrow>
                     (\<exists>s. retry_count s = limit
                        \<and> run_pipeline w url team leader key token limit uuid started
                              finished elapsed
                            = Inr ((score_agent s)\<lparr>finished_at := finished,
                                     duration_seconds := py_round elapsed 2\<rparr>)))
                \<and> (4 \<le> limit \<longrightarrow>
                     run_pipeline w url team leader key token limit uuid started
                       finished elapsed = Inl GraphRecursionError)))"
proof -
  define s0 where "s0 = initial_state url team leader key token limit uuid started"
  have i: "retry_count s0 = 0" "retry_limit s0 = limit"
    by (simp_all add: s0_def initial_state_fields)
  have a: "step c c' \<longrightarrow>
      retry_count (snd c) \<le> retry_count (snd c') \<and> retry_limit (snd c') = retry_limit (snd c)"
    by (simp add: step_retry)
  have b: "0 \<le> retry_count (snd d) \<and> retry_count (snd d) \<le> retry_limit (snd d)
             \<and> retry_limit (snd d) = limit"
    if "0 \<le> limit" and r: "step\<^sup>*\<^sup>* (Clone, s0) d"
  proof -
    from that i have "within_limit (Clone, s0)" by (simp add: within_limit_def)
    with r have "within_limit d" by (rule reachable_within_limit)
    moreover from reachable_retry_count_mono [OF r] i have "0 \<le> retry_count (snd d)" by simp
    moreover from reachable_retry_limit [OF r] i have "retry_limit (snd d) = limit" by simp
    ultimately show ?thesis by (simp add: within_limit_def)
  qed
  have c: "(5 * nat limit + 6 \<le> budget \<longrightarrow>
                   (\<exists>s. (step_of w)\<^sup>*\<^sup>* (Clone, s0) (Score, s)
                        \<and> retry_count s = limit \<and> retry_limit s = limit
                        \<and> run_graph w budget Clone s0 = Inr (score_agent s)))
                \<and> (budget < 5 * nat limit + 6 \<longrightarrow>
                     run_graph w budget Clone s0 = Inl GraphRecursionError)
                \<and> (limit \<le> 3 \<longrightarrow>
                     (\<exists>s. retry_count s = limit
                        \<and> run_pipeline w url team leader key token limit uuid started
                              finished elapsed
                            = Inr ((score_agent s)\<lparr>finished_at := finished,
                                     duration_seconds := py_round elapsed 2\<rparr>)))
                \<and> (4 \<le> limit \<longrightarrow>
                     run_pipeline w url team leader key token limit uuid started
                       finished elapsed = Inl GraphRecursionError)"
    if h: "0 \<le> limit" "\<forall>exc. w_clone w s0 \<noteq> Clone_raises exc"
      "\<forall>s exc. (step_of w)\<^sup>*\<^sup>* (Clone, s0) (Fix, s) \<longrightarrow> fix_agent (w_fix w s) s \<noteq> Inl exc"
      "\<forall>s. (step_of w)\<^sup>*\<^sup>* (Clone, s0) (Cicd_monitor, s) \<longrightarrow>
                    cicd_status (cicd_agent (w_cicd w s) s) \<noteq> ''success''"
  proof -
    note pb = pipeline_budget [OF s0_def h]
    have c1: "5 * nat limit + 6 \<le> budget \<longrightarrow>
                   (\<exists>s. (step_of w)\<^sup>*\<^sup>* (Clone, s0) (Score, s)
                        \<and> retry_count s = limit \<and> retry_limit s = limit
                        \<and> run_graph w budget Clone s0 = Inr (score_agent s))"
      using pb(1) by blast
    have c2: "budget < 5 * nat limit + 6 \<longrightarrow>
                     run_graph w budget Clone s0 = Inl GraphRecursionError"
      using pb(2) by blast
    have c3: "\<exists>s. retry_count s = limit
                        \<and> run_pipeline w url team leader key token limit uuid started
                              finished elapsed
                            = Inr ((score_agent s)\<lparr>finished_at := finished,
                                     duration_seconds := py_round elapsed 2\<rparr>)"
      if "limit \<le> 3"
    proof -
      from that h(1) have "5 * nat limit + 6 \<le> recursion_limit"
        by (simp add: recursion_limit_def)
      from pipeline_budget(1) [OF s0_def h this] obtain s where
        "retry_count s = limit" "run_graph w recursion_limit Clone s0 = Inr (score_agent s)"
        by blast
      then show ?thesis by (auto simp: run_pipeline_def s0_def)
    qed
    have c4: "run_pipeline w url team leader key token limit uuid started
                       finished elapsed = Inl GraphRecursionError"
      if "4 \<le> limit"
    proof -
      from that have "recursion_limit < 5 * nat limit + 6"
        by (simp add: recursion_limit_def)
      from pipeline_budget(2) [OF s0_def h this]
      show ?thesis by (simp add: run_pipeline_def s0_def)
    qed
    from c1 c2 c3 c4 show ?thesis by blast
  qed
  from a b c show ?thesis
    unfolding Let_def s0_def [symmetric] by blast
qed


theorem retry_loop_exceeds_recursion_limit_witness:
  "step (Increment_retry, initial_state [] [] [] [] [] 5 [] [])
        (Analyze, increment_retry (initial_state [] [] [] [] [] 5 [] []))
   \<and> retry_count (initial_state [] [] [] [] [] 5 [] [])
       \<le> retry_count (increment_retry (initial_state [] [] [] [] [] 5 [] []))
   \<and> (0::int) \<le> 5
   \<and> step\<^sup>*\<^sup>* (Clone, initial_state [] [] [] [] [] 5 [] [])
        (Clone, initial_state [] [] [] [] [] 5 [] [])
   \<and> retry_count (initial_state [] [] [] [] [] 5 [] [])
       \<le> retry_limit (initial_state [] [] [] [] [] 5 [] [])
   \<and> (\<forall>exc. w_clone failing_ci_world (initial_state [] [] [] [] [] 5 [] []) \<noteq> Clone_raises exc)
   \<and> run_graph failing_ci_world 30 Clone (initial_state [] [] [] [] [] 5 [] [])
       = Inl GraphRecursionError
   \<and> run_pipeline failing_ci_world [] [] [] [] [] 5 [] [] [] 0 = Inl GraphRecursionError
   \<and> (\<exists>s. (step_of failing_ci_world)\<^sup>*\<^sup>* (Clone, initial_state [] [] [] [] [] 5 [] []) (Score, s)
          \<and> retry_count s = 5 \<and> retry_limit s = 5
          \<and> run_graph failing_ci_world 31 Clone (initial_state [] [] [] [] [] 5 [] [])
               = Inr (score_agent s))
   \<and> (\<exists>s. retry_count s = 3
          \<and> run_pipeline failing_ci_world [] [] [] [] [] 3 [] [] [] 0
              = Inr ((score_agent s)\<lparr>finished_at := [], duration_seconds := py_round 0 2\<rparr>))"
proof -
  let ?s5 = "initial_state [] [] [] [] [] 5 [] []"
  let ?s3 = "initial_state [] [] [] [] [] 3 [] []"
  note i5 = retry_loop_exceeds_recursion_limit
    [where c = "(Increment_retry, ?s5)" and c' = "(Analyze, increment_retry ?s5)"
       and url = "[]" and team = "[]" and leader = "[]" and key = "[]" and token = "[]"
       and limit = 5 and uuid = "[]" and started = "[]" and d = "(Clone, ?s5)"
       and w = failing_ci_world and finished = "[]" and elapsed = 0, unfolded Let_def]
  note i3 = retry_loop_exceeds_recursion_limit
    [where c = "(Increment_retry, ?s3)" and c' = "(Analyze, increment_retry ?s3)"
       and url = "[]" and team = "[]" and leader = "[]" and key = "[]" and token = "[]"
       and limit = 3 and uuid = "[]" and started = "[]" and d = "(Clone, ?s3)"
       and w = failing_ci_world and budget = 25 and finished = "[]" and elapsed = 0,
       unfolded Let_def]
  have st: "step (Increment_retry, ?s5) (Analyze, increment_retry ?s5)"
    by (simp add: step_def step_of_def)
  have l: "(0::int) \<le> 5" "(0::int) \<le> 3" "(4::int) \<le> 5" "(3::int) \<le> 3" by simp_all
  have r: "step\<^sup>*\<^sup>* (Clone, ?s5) (Clone, ?s5)" by simp
  note h5 = failing_ci_world_hyps [of 5]
  note h3 = failing_ci_world_hyps [of 3]
  from i5 [where budget = 30] st have a: "retry_count ?s5 \<le> retry_count (increment_retry ?s5)"
    by simp
  from i5 [where budget = 30, THEN conjunct2, rule_format, OF l(1), THEN conjunct1] r
  have b: "retry_count ?s5 \<le> retry_limit ?s5" by simp
  note k5 = i5 [THEN conjunct2, rule_format, OF l(1), THEN conjunct2, rule_format,
      OF conjI [OF h5(1) conjI [OF h5(2) h5(3)]]]
  note k3 = i3 [THEN conjunct2, rule_format, OF l(2), THEN conjunct2, rule_format,
      OF conjI [OF h3(1) conjI [OF h3(2) h3(3)]]]
  have "(30::nat) < 5 * nat 5 + 6" by simp
  with k5 [where budget = 30]
  have c: "run_graph failing_ci_world 30 Clone ?s5 = Inl GraphRecursionError" by blast
  from k5 [where budget = 30] l(3)
  have d: "run_pipeline failing_ci_world [] [] [] [] [] 5 [] [] [] 0 = Inl GraphRecursionError"
    by blast
  have "5 * nat 5 + 6 \<le> (31::nat)" by simp
  with k5 [where budget = 31]
  have e: "\<exists>s. (step_of failing_ci_world)\<^sup>*\<^sup>* (Clone, ?s5) (Score, s)
          \<and> retry_count s = 5 \<and> retry_limit s = 5
          \<and> run_graph failing_ci_world 31 Clone ?s5 = Inr (score_agent s)" by blast
  from k3 l(4)
  have f: "\<exists>s. retry_count s = 3
          \<and> run_pipeline failing_ci_world [] [] [] [] [] 3 [] [] [] 0
              = Inr ((score_agent s)\<lparr>finished_at := [], duration_seconds := py_round 0 2\<rparr>)"
    by blast
  from st a l(1) r b h5(1) c d e f show ?thesis by (intro conjI)
qed

text \<open>
  The retry limit of a request is not validated. With the retry limit -1 the initial
  state itself has a retry count above the limit. With the retry limit 5 and a failing
  clone the verify step reports failure and the run reaches the score step with retry
  count 0.
\<close>

lemma retry_limit_not_reached_examples:
  "step\<^sup>*\<^sup>* (Clone, initial_state [] [] [] [] [] (- 1) [] [])
         (Clone, initial_state [] [] [] [] [] (- 1) [] [])
   \<and> retry_count (initial_state [] [] [] [] [] (- 1) [] []) = 0
   \<and> \<not> retry_count (initial_state [] [] [] [] [] (- 1) [] [])
        \<le> retry_limit (initial_state [] [] [] [] [] (- 1) [] [])
   \<and> (\<exists>s. (step_of failing_clone_world)\<^sup>*\<^sup>* (Clone, initial_state [] [] [] [] [] 5 [] [])
              (Score, s)
         \<and> cicd_status s = ''failure'' \<and> retry_count s = 0 \<and> retry_limit s = 5
         \<and> retry_count s \<noteq> retry_limit s)"
proof -
  let ?s0 = "initial_state [] [] [] [] [] 5 [] []"
  define s1 where "s1 = clone_agent (Clone_raises ''repository not found'') ?s0"
  define s4 where "s4 = s1\<lparr>cicd_status := ''failure'',
      cicd_timeline := cicd_timeline s1 @ [timeline_event ''cicd_simulated'' ''failure'']\<rparr>"
  have f: "w_clone failing_clone_world ?s0 = Clone_raises ''repository not found''"
    by (simp add: failing_clone_world_def)
  from clone_failure_path(6) [OF refl f s1_def s4_def]
  have r: "(step_of failing_clone_world)\<^sup>*\<^sup>* (Clone, ?s0) (Score, s4)"
    by (rule relpowp_imp_rtranclp)
  have "cicd_status s4 = ''failure''" "retry_count s4 = 0" "retry_limit s4 = 5"
    by (simp_all add: s4_def s1_def initial_state_fields)
  with r have "\<exists>s. (step_of failing_clone_world)\<^sup>*\<^sup>* (Clone, ?s0) (Score, s)
         \<and> cicd_status s = ''failure'' \<and> retry_count s = 0 \<and> retry_limit s = 5
         \<and> retry_count s \<noteq> retry_limit s"
    by (intro exI [of _ s4]) simp
  then show ?thesis by (simp add: initial_state_fields)
qed

end
